theory Spec2Isabelle
  imports Complex_Main "HOL-Library.Log_Nat" "HOL-Library.AList"
begin

section \<open>Data model (src/types/index.ts)\<close>

text \<open>
  A JavaScript \<open>number\<close> is an IEEE-754 binary64 value. Finite binary64 values are
  rationals, so the finite numbers are \<open>number = rat\<close>; the arithmetic operators of the
  source round their exact result to binary64 (see \<open>binary64\<close> below). \<open>jsnumber\<close>
  adds \<open>NaN\<close> and the two infinities; it is the type of the numbers that can be one
  of them: the positions the gateway library reports (\<open>NaN\<close> for a position it does
  not know), the positions of a device state computed from them, and the results of
  \<open>parseInt\<close>. Node identifiers of devices and timestamps are natural numbers.
\<close>

type_synonym number = rat

datatype jsnumber = Finite number | NaN | PosInfinity | NegInfinity

datatype DeviceType = WINDOW | BLIND | SHUTTER | AWNING | GARAGE | GATE | LOCK | UNKNOWN

record DeviceState =
  nodeId :: nat
  name :: string
  type :: DeviceType
  position :: jsnumber
  targetPosition :: jsnumber
  moving :: bool
  online :: bool
  error :: "string option"
  limitationMin :: int
  limitationMax :: int
  serialNumber :: string
  productType :: nat
  lastUpdate :: nat

record SceneState =
  sceneId :: nat
  sceneName :: string
  productCount :: nat

record DeviceStateChangeEvent =
  evNodeId :: nat
  previousState :: "DeviceState option"
  currentState :: DeviceState

record PersistedData =
  pdDevices :: "(nat \<times> DeviceState) list"
  pdScenes :: "(nat \<times> SceneState) list"
  lastRefresh :: nat

subsection \<open>Arithmetic of \<open>number\<close>\<close>

text \<open>
  \<open>binary64 x\<close> is \<open>x\<close> rounded to the nearest value with a 53-bit significand, ties
  to the even significand (the rounding of IEEE-754 binary64, with the exponent range
  left unbounded: overflow to infinity and subnormal results are not modelled).
  \<open>ilog2 x\<close> is the exponent of \<open>x > 0\<close>: the integer \<open>e\<close> with
  \<open>2\<^sup>e \<le> x < 2\<^sup>e\<^sup>+\<^sup>1\<close>.
\<close>

definition ilog2 :: "rat \<Rightarrow> int" where
  "ilog2 x = (if 1 \<le> x then bitlen \<lfloor>x\<rfloor> - 1 else - bitlen (\<lceil>1 / x\<rceil> - 1))"

definition roundHalfEven :: "rat \<Rightarrow> int" where
  "roundHalfEven m =
     (let f = \<lfloor>m\<rfloor>; r = m - of_int f in
      if r < 1 / 2 then f else if 1 / 2 < r then f + 1 else if even f then f else f + 1)"

definition binary64 :: "rat \<Rightarrow> number" where
  "binary64 x =
     (if x = 0 then 0
      else (let e = ilog2 \<bar>x\<bar> - 52 in
            sgn x * of_int (roundHalfEven (\<bar>x\<bar> / 2 powi e)) * 2 powi e))"

text \<open>The operators \<open>-\<close>, \<open>*\<close>, \<open>/\<close> of the source, \<open>Math.pow\<close> with an integer
  exponent and \<open>Math.round\<close> (the nearest integer, a tie going up).\<close>

definition fsub :: "number \<Rightarrow> number \<Rightarrow> number" where
  "fsub a b = binary64 (a - b)"

definition fmul :: "number \<Rightarrow> number \<Rightarrow> number" where
  "fmul a b = binary64 (a * b)"

definition fdiv :: "number \<Rightarrow> number \<Rightarrow> number" where
  "fdiv a b = binary64 (a / b)"

definition Math_pow :: "number \<Rightarrow> int \<Rightarrow> number" where
  "Math_pow b k = binary64 (b powi k)"

definition Math_round :: "number \<Rightarrow> int" where
  "Math_round x = \<lfloor>x + 1 / 2\<rfloor>"

text \<open>
  The operator \<open>!==\<close> on two numbers: \<open>NaN\<close> is different from every number, itself
  included. \<open>toNumber\<close> is the number of an integer: the integer rounded to binary64,
  an infinity from \<open>2\<^sup>1\<^sup>0\<^sup>2\<^sup>4\<close> on.
\<close>

definition strictNotEqual :: "jsnumber \<Rightarrow> jsnumber \<Rightarrow> bool" where
  "strictNotEqual a b \<longleftrightarrow> a = NaN \<or> b = NaN \<or> a \<noteq> b"

definition toNumber :: "int \<Rightarrow> jsnumber" where
  "toNumber i =
     (let r = binary64 (of_int i) in
      if 2 ^ 1024 \<le> r then PosInfinity
      else if r \<le> - (2 ^ 1024) then NegInfinity
      else Finite r)"

subsection \<open>Position codec and type map\<close>

definition ACTUATOR_TYPE_MAP :: "nat \<Rightarrow> DeviceType option" where
  "ACTUATOR_TYPE_MAP t =
     (if t = 0 then Some UNKNOWN else if t = 1 then Some BLIND else if t = 2 then Some SHUTTER
      else if t = 3 then Some AWNING else if t = 4 then Some WINDOW else if t = 5 then Some GARAGE
      else if t = 6 then Some UNKNOWN else if t = 7 then Some GATE else if t = 8 then Some GARAGE
      else if t = 9 then Some LOCK else if t = 10 then Some BLIND else if t = 12 then Some UNKNOWN
      else if t = 13 then Some SHUTTER else if t = 14 then Some UNKNOWN
      else if t = 15 then Some UNKNOWN else if t = 16 then Some AWNING
      else if t = 17 then Some BLIND else if t = 18 then Some BLIND else if t = 19 then Some BLIND
      else if t = 20 then Some WINDOW else if t = 21 then Some UNKNOWN
      else if t = 22 then Some UNKNOWN else if t = 23 then Some UNKNOWN
      else if t = 24 then Some SHUTTER else None)"

definition getDeviceType :: "nat \<Rightarrow> DeviceType" where
  "getDeviceType actuatorType =
     (case ACTUATOR_TYPE_MAP actuatorType of Some t \<Rightarrow> t | None \<Rightarrow> UNKNOWN)"

definition klfPositionToPercent :: "number \<Rightarrow> int" where
  "klfPositionToPercent klfPosition = Math_round (fmul (fsub 1 klfPosition) 100)"

definition percentToKlfPosition :: "number \<Rightarrow> number" where
  "percentToKlfPosition percent = fsub 1 (fdiv percent 100)"

text \<open>
  \<open>klfPositionToPercent\<close> on any number: on a finite one it is the function above; the
  subtraction, the product and \<open>Math.round\<close> turn \<open>NaN\<close> into \<open>NaN\<close> and an infinity
  into the opposite infinity.
\<close>

definition klfPositionToPercent_js :: "jsnumber \<Rightarrow> jsnumber" where
  "klfPositionToPercent_js klfPosition =
     (case klfPosition of
        Finite x \<Rightarrow> Finite (of_int (klfPositionToPercent x))
      | NaN \<Rightarrow> NaN
      | PosInfinity \<Rightarrow> NegInfinity
      | NegInfinity \<Rightarrow> PosInfinity)"

section \<open>Device registry (src/lib/device-registry.ts)\<close>

text \<open>
  A JavaScript \<open>Map\<close> keeps its keys in insertion order and \<open>set\<close> on a key that is
  present replaces the value in place: that is an association list under
  \<open>AList.update\<close>, read with \<open>map_of\<close>. The \<open>EventEmitter\<close> is the list of events a
  call emits, in order. The save timer is a flag: armed or not.
\<close>

datatype RegistryEvent =
    DeviceStateChanged DeviceStateChangeEvent
  | DevicesUpdated "DeviceState list"
  | ScenesUpdated "SceneState list"

record DeviceRegistry =
  devices :: "(nat \<times> DeviceState) list"
  scenes :: "(nat \<times> SceneState) list"
  persistPath :: string
  dirty :: bool
  saveTimer :: bool

definition getAllDevices :: "DeviceRegistry \<Rightarrow> DeviceState list" where
  "getAllDevices reg = map snd (devices reg)"

definition getDevice :: "nat \<Rightarrow> DeviceRegistry \<Rightarrow> DeviceState option" where
  "getDevice n reg = map_of (devices reg) n"

definition hasStateChanged :: "DeviceState \<Rightarrow> DeviceState \<Rightarrow> bool" where
  "hasStateChanged prev curr' \<longleftrightarrow>
     strictNotEqual (position prev) (position curr') \<or>
     strictNotEqual (targetPosition prev) (targetPosition curr') \<or>
     moving prev \<noteq> moving curr' \<or>
     online prev \<noteq> online curr' \<or>
     error prev \<noteq> error curr' \<or>
     name prev \<noteq> name curr'"

definition scheduleSave :: "DeviceRegistry \<Rightarrow> DeviceRegistry" where
  "scheduleSave reg = (if saveTimer reg then reg else reg\<lparr>saveTimer := True\<rparr>)"

definition markDirty :: "DeviceRegistry \<Rightarrow> DeviceRegistry" where
  "markDirty reg = scheduleSave (reg\<lparr>dirty := True\<rparr>)"

definition updateDevice :: "DeviceState \<Rightarrow> DeviceRegistry \<Rightarrow> DeviceRegistry \<times> RegistryEvent list" where
  "updateDevice state reg =
     (let previousState = map_of (devices reg) (nodeId state) in
      if (case previousState of None \<Rightarrow> False | Some prev \<Rightarrow> \<not> hasStateChanged prev state)
      then (reg, [])
      else (markDirty (reg\<lparr>devices := AList.update (nodeId state) state (devices reg)\<rparr>),
            [DeviceStateChanged \<lparr>evNodeId = nodeId state, previousState = previousState,
                                 currentState = state\<rparr>]))"

text \<open>The \<open>for\<close> loop of \<open>updateDevices\<close>: the registry and the events emitted so far.\<close>

fun updateDevices_loop ::
  "DeviceState list \<Rightarrow> DeviceRegistry \<Rightarrow> RegistryEvent list \<Rightarrow> DeviceRegistry \<times> RegistryEvent list" where
  "updateDevices_loop [] reg evs = (reg, evs)"
| "updateDevices_loop (state # states) reg evs =
     (let previousState = map_of (devices reg) (nodeId state) in
      if (case previousState of None \<Rightarrow> True | Some prev \<Rightarrow> hasStateChanged prev state)
      then updateDevices_loop states
             (reg\<lparr>devices := AList.update (nodeId state) state (devices reg)\<rparr>)
             (evs @ [DeviceStateChanged \<lparr>evNodeId = nodeId state, previousState = previousState,
                                          currentState = state\<rparr>])
      else updateDevices_loop states reg evs)"

definition updateDevices :: "DeviceState list \<Rightarrow> DeviceRegistry \<Rightarrow> DeviceRegistry \<times> RegistryEvent list" where
  "updateDevices states reg =
     (case updateDevices_loop states reg [] of
        (reg1, evs) \<Rightarrow>
          (let reg2 = markDirty reg1 in (reg2, evs @ [DevicesUpdated (getAllDevices reg2)])))"

definition removeDevice :: "nat \<Rightarrow> DeviceRegistry \<Rightarrow> bool \<times> DeviceRegistry" where
  "removeDevice n reg =
     (let deleted = (map_of (devices reg) n \<noteq> None) in
      if deleted then (True, markDirty (reg\<lparr>devices := AList.delete n (devices reg)\<rparr>))
      else (False, reg))"

definition clearDevices :: "DeviceRegistry \<Rightarrow> DeviceRegistry" where
  "clearDevices reg = markDirty (reg\<lparr>devices := []\<rparr>)"

subsection \<open>Persistence\<close>

text \<open>
  The file system is what the registry asks of it and what it answers: \<open>fs_env\<close> holds
  the answers (\<open>existsSync\<close>, whether \<open>mkdirSync\<close> and \<open>writeFileSync\<close> throw, and
  \<open>path.dirname\<close>), and a call of \<open>save\<close> returns the list of mutating calls it made,
  in order. \<open>RenameSync\<close> is the \<open>fs.renameSync\<close> of the platform. The text written is
  \<open>JSON.stringify\<close> of a \<open>PersistedData\<close> object, so \<open>WriteFileSync\<close> carries that
  object; \<open>Object.fromEntries\<close> of a map with integer keys enumerates in ascending key
  order. \<open>now\<close> is the clock.
\<close>

datatype fs_call =
    MkdirSync string
  | WriteFileSync string PersistedData
  | RenameSync string string

datatype fs_error = MkdirFailed

record fs_env =
  existsSync :: "string \<Rightarrow> bool"
  mkdirSync_throws :: "string \<Rightarrow> bool"
  writeFileSync_throws :: "string \<Rightarrow> bool"
  path_dirname :: "string \<Rightarrow> string"

definition save :: "fs_env \<Rightarrow> nat \<Rightarrow> DeviceRegistry \<Rightarrow> (fs_error + unit) \<times> DeviceRegistry \<times> fs_call list" where
  "save env now reg =
     (let dataDir = path_dirname env (persistPath reg) in
      if \<not> existsSync env dataDir \<and> mkdirSync_throws env dataDir
      then (Inl MkdirFailed, reg, [MkdirSync dataDir])
      else
        (let mk = (if \<not> existsSync env dataDir then [MkdirSync dataDir] else []);
             data = \<lparr>pdDevices = sort_key fst (devices reg),
                     pdScenes = sort_key fst (scenes reg),
                     lastRefresh = now\<rparr>
         in if writeFileSync_throws env (persistPath reg)
            then (Inr (), reg, mk @ [WriteFileSync (persistPath reg) data])
            else (Inr (), reg\<lparr>dirty := False\<rparr>, mk @ [WriteFileSync (persistPath reg) data])))"


definition flush :: "fs_env \<Rightarrow> nat \<Rightarrow> DeviceRegistry \<Rightarrow> (fs_error + unit) \<times> DeviceRegistry \<times> fs_call list" where
  "flush env now reg =
     (let reg1 = (if saveTimer reg then reg\<lparr>saveTimer := False\<rparr> else reg) in
      if dirty reg1 then save env now reg1 else (Inr (), reg1, []))"

definition destroy :: "fs_env \<Rightarrow> nat \<Rightarrow> DeviceRegistry \<Rightarrow> (fs_error + unit) \<times> DeviceRegistry \<times> fs_call list" where
  "destroy env now reg = flush env now reg"

section \<open>Gateway session (src/lib/klf-connection.ts)\<close>

text \<open>
  A \<open>Product\<close> is what the gateway library hands over; its \<open>CurrentPosition\<close> and
  \<open>TargetPosition\<close> are \<open>NaN\<close> when the position is not known. \<open>LimitationMinRaw\<close> and
  \<open>LimitationMaxRaw\<close> are optional arrays; \<open>SerialNumber\<close> is an optional buffer, held
  here by its hexadecimal rendering. The session is the record of the fields of the
  class; a timer is the delay it was armed with (or a flag), \<open>connection\<close> and
  \<open>gateway\<close> say whether the reference is set.
\<close>

record Product =
  NodeID :: nat
  Name :: string
  TypeID :: nat
  CurrentPosition :: jsnumber
  TargetPosition :: jsnumber
  RunStatus :: nat
  State :: nat
  StatusReply :: nat
  LimitationMinRaw :: "number list option"
  LimitationMaxRaw :: "number list option"
  SerialNumber :: "string option"

record Scene =
  SceneID :: nat
  SceneName :: string
  Products :: "nat list"

record KLF200Config =
  host :: string
  password :: string
  port :: nat
  tlsFingerprint :: "string option"
  connectionTimeout :: number
  keepaliveInterval :: number
  reconnectBaseDelay :: number
  reconnectMaxDelay :: number

record KLFConnection =
  config :: KLF200Config
  connection :: bool
  gateway :: bool
  products :: "Product list option"
  klfScenes :: "Scene list option"
  connected :: bool
  reconnecting :: bool
  reconnectAttempt :: nat
  keepaliveTimer :: bool
  reconnectTimer :: "number option"
  shuttingDown :: bool

datatype KLFError =
    NotConnected
  | DeviceNotFound nat
  | SceneNotFound nat
  | GatewayError string

datatype KLFEvent =
    ConnectedEv
  | DisconnectedEv "string option"
  | KlfDeviceStateChanged nat DeviceState
  | DevicesDiscovered "DeviceState list"
  | ScenesDiscovered "SceneState list"
  | ErrorEv string

text \<open>What the gateway is asked to do, and how a connection attempt can end.\<close>

datatype GatewayCall =
    SetTargetPositionAsync nat number
  | StopAsync nat
  | RunAsync nat

datatype ConnectOutcome = LoginThrows string | MonitorThrows string | Succeeds

fun showNat :: "nat \<Rightarrow> string" where
  "showNat n =
     (if n < 10 then [char_of (48 + n)]
      else showNat (n div 10) @ [char_of (48 + n mod 10)])"

definition productToDeviceState :: "nat \<Rightarrow> Product \<Rightarrow> DeviceState" where
  "productToDeviceState now product =
     (let limitMin = (case LimitationMinRaw product of Some (x # _) \<Rightarrow> x | _ \<Rightarrow> 0);
          limitMax = (case LimitationMaxRaw product of Some (x # _) \<Rightarrow> x | _ \<Rightarrow> 1)
      in \<lparr>nodeId = NodeID product,
          name = Name product,
          type = getDeviceType (TypeID product),
          position = klfPositionToPercent_js (CurrentPosition product),
          targetPosition = klfPositionToPercent_js (TargetPosition product),
          moving = (RunStatus product \<noteq> 0),
          online = (State product = 1),
          error = (if StatusReply product \<noteq> 0
                   then Some (''Status: '' @ showNat (StatusReply product)) else None),
          limitationMin = klfPositionToPercent limitMin,
          limitationMax = klfPositionToPercent limitMax,
          serialNumber = (case SerialNumber product of Some h \<Rightarrow> h | None \<Rightarrow> []),
          productType = TypeID product,
          lastUpdate = now\<rparr>)"

definition connect :: "ConnectOutcome \<Rightarrow> KLFConnection \<Rightarrow> (KLFError + unit) \<times> KLFConnection \<times> KLFEvent list" where
  "connect outcome c =
     (if connected c then (Inr (), c, [])
      else (case outcome of
              LoginThrows msg \<Rightarrow>
                (Inl (GatewayError msg), c\<lparr>connection := True, connected := False\<rparr>, [ErrorEv msg])
            | MonitorThrows msg \<Rightarrow>
                (Inl (GatewayError msg),
                 c\<lparr>connection := True, gateway := True, connected := False\<rparr>, [ErrorEv msg])
            | Succeeds \<Rightarrow>
                (Inr (),
                 c\<lparr>connection := True, gateway := True, connected := True,
                   reconnectAttempt := 0, keepaliveTimer := True\<rparr>,
                 [ConnectedEv])))"

definition discoverDevices ::
  "nat \<Rightarrow> (string + Product list) \<Rightarrow> KLFConnection \<Rightarrow> (KLFError + DeviceState list) \<times> KLFConnection \<times> KLFEvent list" where
  "discoverDevices now listed c =
     (if \<not> connection c \<or> \<not> connected c then (Inl NotConnected, c, [])
      else (case listed of
              Inl msg \<Rightarrow> (Inl (GatewayError msg), c, [])
            | Inr ps \<Rightarrow>
                (let devs = map (productToDeviceState now) ps
                 in (Inr devs, c\<lparr>products := Some ps\<rparr>, [DevicesDiscovered devs]))))"

definition discoverScenes ::
  "(string + Scene list) \<Rightarrow> KLFConnection \<Rightarrow> (KLFError + SceneState list) \<times> KLFConnection \<times> KLFEvent list" where
  "discoverScenes listed c =
     (if \<not> connection c \<or> \<not> connected c then (Inl NotConnected, c, [])
      else (case listed of
              Inl msg \<Rightarrow> (Inl (GatewayError msg), c, [])
            | Inr ss \<Rightarrow>
                (let sceneStates =
                       map (\<lambda>scene. \<lparr>sceneId = SceneID scene, sceneName = SceneName scene,
                                      productCount = length (Products scene)\<rparr>) ss
                 in (Inr sceneStates, c\<lparr>klfScenes := Some ss\<rparr>, [ScenesDiscovered sceneStates]))))"

text \<open>
  \<open>setDevicePosition\<close>: \<open>answer\<close> is how \<open>setTargetPositionAsync\<close> of the product ends
  (\<open>None\<close>: it resolves; \<open>Some msg\<close>: it rejects). The result carries the calls made
  on the gateway.
\<close>

definition setDevicePosition ::
  "(nat \<Rightarrow> number \<Rightarrow> string option) \<Rightarrow> nat \<Rightarrow> number \<Rightarrow> KLFConnection \<Rightarrow> (KLFError + unit) \<times> GatewayCall list" where
  "setDevicePosition answer n pos c =
     (case products c of
        None \<Rightarrow> (Inl NotConnected, [])
      | Some ps \<Rightarrow>
          if \<not> connected c then (Inl NotConnected, [])
          else (case find (\<lambda>p. NodeID p = n) ps of
                  None \<Rightarrow> (Inl (DeviceNotFound n), [])
                | Some product \<Rightarrow>
                    (let clampedPosition = max 0 (min 100 pos);
                         klfPosition = percentToKlfPosition clampedPosition
                     in (case answer (NodeID product) klfPosition of
                           None \<Rightarrow> Inr ()
                         | Some msg \<Rightarrow> Inl (GatewayError msg),
                         [SetTargetPositionAsync (NodeID product) klfPosition]))))"

definition stopDevice ::
  "(nat \<Rightarrow> string option) \<Rightarrow> nat \<Rightarrow> KLFConnection \<Rightarrow> (KLFError + unit) \<times> GatewayCall list" where
  "stopDevice answer n c =
     (case products c of
        None \<Rightarrow> (Inl NotConnected, [])
      | Some ps \<Rightarrow>
          if \<not> connected c then (Inl NotConnected, [])
          else (case find (\<lambda>p. NodeID p = n) ps of
                  None \<Rightarrow> (Inl (DeviceNotFound n), [])
                | Some product \<Rightarrow>
                    (case answer (NodeID product) of
                       None \<Rightarrow> Inr ()
                     | Some msg \<Rightarrow> Inl (GatewayError msg),
                     [StopAsync (NodeID product)])))"

definition stopKeepalive :: "KLFConnection \<Rightarrow> KLFConnection" where
  "stopKeepalive c = (if keepaliveTimer c then c\<lparr>keepaliveTimer := False\<rparr> else c)"

definition stopReconnect :: "KLFConnection \<Rightarrow> KLFConnection" where
  "stopReconnect c =
     (if reconnectTimer c \<noteq> None then c\<lparr>reconnectTimer := None\<rparr> else c)\<lparr>reconnecting := False\<rparr>"

definition scheduleReconnect :: "KLFConnection \<Rightarrow> KLFConnection" where
  "scheduleReconnect c =
     (if shuttingDown c \<or> reconnecting c then c
      else (let attempt = reconnectAttempt c + 1;
                delay = min (fmul (reconnectBaseDelay (config c)) (Math_pow 2 (int attempt - 1)))
                            (reconnectMaxDelay (config c))
            in c\<lparr>reconnecting := True, reconnectAttempt := attempt, reconnectTimer := Some delay\<rparr>))"

definition handleConnectionLoss :: "KLFConnection \<Rightarrow> KLFConnection \<times> KLFEvent list" where
  "handleConnectionLoss c =
     (if shuttingDown c then (c, [])
      else (let c1 = stopKeepalive (c\<lparr>connected := False\<rparr>);
                evs = [DisconnectedEv (Some ''Connection lost'')]
            in if \<not> reconnecting c1 then (scheduleReconnect c1, evs) else (c1, evs)))"

text \<open>
  The body of the reconnect timer: drop the old connection, \<open>connect\<close>, rediscover;
  any failure schedules the next attempt.
\<close>

definition reconnectTimerFired ::
  "nat \<Rightarrow> ConnectOutcome \<Rightarrow> (string + Product list) \<Rightarrow> (string + Scene list) \<Rightarrow> KLFConnection \<Rightarrow> KLFConnection \<times> KLFEvent list" where
  "reconnectTimerFired now outcome listedProducts listedScenes c =
     (let c0 = c\<lparr>connection := False, products := None, klfScenes := None\<rparr> in
      case connect outcome c0 of
        (Inl _, c1, evs1) \<Rightarrow> (scheduleReconnect (c1\<lparr>reconnecting := False\<rparr>), evs1)
      | (Inr _, c1, evs1) \<Rightarrow>
          (case discoverDevices now listedProducts c1 of
             (Inl _, c2, evs2) \<Rightarrow> (scheduleReconnect (c2\<lparr>reconnecting := False\<rparr>), evs1 @ evs2)
           | (Inr _, c2, evs2) \<Rightarrow>
               (case discoverScenes listedScenes c2 of
                  (Inl _, c3, evs3) \<Rightarrow>
                    (scheduleReconnect (c3\<lparr>reconnecting := False\<rparr>), evs1 @ evs2 @ evs3)
                | (Inr _, c3, evs3) \<Rightarrow> (c3\<lparr>reconnecting := False\<rparr>, evs1 @ evs2 @ evs3))))"

section \<open>Message bus bridge (src/lib/mqtt-bridge.ts)\<close>

text \<open>
  A JavaScript string is the list of its UTF-16 code units; \<open>str\<close> gives the string of
  an ASCII literal. Two functions of the platform are taken as they are, in a record:
  \<open>toLowerCase\<close> of a string, with its Unicode tables, and the match of a topic against
  the regular expression made from a pattern text, which is \<open>RegExpThrows\<close> when the
  pattern is not a regular expression, \<open>NoMatch\<close>, or \<open>Match\<close> with the text of the
  first group (\<open>None\<close> for \<open>undefined\<close>). The white space of \<open>trim\<close> and \<open>parseInt\<close> is
  that of the language: tab, line feed, vertical tab, form feed, carriage return, space,
  no-break space, the byte order mark, the line and paragraph separators and the other
  space separators of Unicode. \<open>parseInt s 10\<close> skips leading white space, reads an
  optional sign and the longest run of decimal digits, and is \<open>NaN\<close> when there is no
  digit; its value is the number of the integer read (beyond twenty digits the language
  lets an implementation replace the later digits by zero).
\<close>

type_synonym jsstring = "nat list"

definition str :: "string \<Rightarrow> jsstring" where
  "str s = map of_char s"

datatype match_result = RegExpThrows | NoMatch | Match "jsstring option"

record platform =
  toLowerCase :: "jsstring \<Rightarrow> jsstring"
  regExpMatch :: "jsstring \<Rightarrow> jsstring \<Rightarrow> match_result"

datatype DeviceCommand = Open | Close | Stop | Position number

datatype GlobalCommand = Refresh | Reconnect

datatype BridgeEvent =
    DeviceCommandEv jsnumber DeviceCommand
  | SceneCommandEv jsnumber
  | GlobalCommandEv GlobalCommand

definition isWhiteSpace :: "nat \<Rightarrow> bool" where
  "isWhiteSpace u \<longleftrightarrow>
     u \<in> {9, 10, 11, 12, 13, 32, 160, 5760, 8232, 8233, 8239, 8287, 12288, 65279}
     \<or> (8192 \<le> u \<and> u \<le> 8202)"

definition isDigit :: "nat \<Rightarrow> bool" where
  "isDigit u \<longleftrightarrow> 48 \<le> u \<and> u \<le> 57"

definition trim :: "jsstring \<Rightarrow> jsstring" where
  "trim s = rev (dropWhile isWhiteSpace (rev (dropWhile isWhiteSpace s)))"

definition digitsValue :: "jsstring \<Rightarrow> int" where
  "digitsValue ds = foldl (\<lambda>acc u. 10 * acc + int (u - 48)) 0 ds"

definition parseInt :: "jsstring \<Rightarrow> jsnumber" where
  "parseInt s =
     (let s1 = dropWhile isWhiteSpace s;
          sign = (case s1 of u # _ \<Rightarrow> if u = 45 then - 1 else 1 | [] \<Rightarrow> 1);
          s2 = (case s1 of u # r \<Rightarrow> if u = 45 \<or> u = 43 then r else s1 | [] \<Rightarrow> s1);
          ds = takeWhile isDigit s2
      in if ds = [] then NaN else toNumber (sign * digitsValue ds))"

text \<open>The test \<open>!isNaN(position) && position >= 0 && position <= 100\<close>.\<close>

definition isPosition :: "jsnumber \<Rightarrow> bool" where
  "isPosition p = (case p of Finite x \<Rightarrow> 0 \<le> x \<and> x \<le> 100 | _ \<Rightarrow> False)"

definition parseDeviceCommand :: "platform \<Rightarrow> jsstring \<Rightarrow> DeviceCommand option" where
  "parseDeviceCommand pf payload =
     (let cmd = trim (toLowerCase pf payload) in
      if cmd = str ''open'' then Some Open
      else if cmd = str ''close'' then Some Close
      else if cmd = str ''stop'' then Some Stop
      else (case parseInt payload of
              Finite x \<Rightarrow> if isPosition (Finite x) then Some (Position x) else None
            | _ \<Rightarrow> None))"

text \<open>
  The texts of the three patterns, \<open>^{prefix}/devices/(\d+)/cmd$\<close> and the like (92 is
  the backslash), and the number of the first group of a match, which is
  \<open>parseInt\<close> of its text.
\<close>

definition deviceCmdPattern :: "jsstring \<Rightarrow> jsstring" where
  "deviceCmdPattern prefix = str ''^'' @ prefix @ str ''/devices/('' @ [92] @ str ''d+)/cmd$''"

definition positionSetPattern :: "jsstring \<Rightarrow> jsstring" where
  "positionSetPattern prefix =
     str ''^'' @ prefix @ str ''/devices/('' @ [92] @ str ''d+)/position/set$''"

definition sceneCmdPattern :: "jsstring \<Rightarrow> jsstring" where
  "sceneCmdPattern prefix = str ''^'' @ prefix @ str ''/scenes/('' @ [92] @ str ''d+)/cmd$''"

definition groupNumber :: "jsstring option \<Rightarrow> jsnumber" where
  "groupNumber g = parseInt (case g of Some t \<Rightarrow> t | None \<Rightarrow> str ''undefined'')"

definition handleMessage :: "platform \<Rightarrow> jsstring \<Rightarrow> jsstring \<Rightarrow> jsstring \<Rightarrow> BridgeEvent list" where
  "handleMessage pf prefix topic payload =
     (case regExpMatch pf (deviceCmdPattern prefix) topic of
        RegExpThrows \<Rightarrow> []
      | Match g \<Rightarrow>
          (case parseDeviceCommand pf payload of
             Some command \<Rightarrow> [DeviceCommandEv (groupNumber g) command]
           | None \<Rightarrow> [])
      | NoMatch \<Rightarrow>
     (case regExpMatch pf (positionSetPattern prefix) topic of
        RegExpThrows \<Rightarrow> []
      | Match g \<Rightarrow>
          (case parseInt payload of
             Finite x \<Rightarrow>
               if isPosition (Finite x)
               then [DeviceCommandEv (groupNumber g) (Position x)] else []
           | _ \<Rightarrow> [])
      | NoMatch \<Rightarrow>
     (case regExpMatch pf (sceneCmdPattern prefix) topic of
        RegExpThrows \<Rightarrow> []
      | Match g \<Rightarrow>
          (if toLowerCase pf payload = str ''run'' then [SceneCommandEv (groupNumber g)] else [])
      | NoMatch \<Rightarrow>
     (if topic = prefix @ str ''/cmd''
      then (let command = toLowerCase pf payload in
            if command = str ''refresh'' then [GlobalCommandEv Refresh]
            else if command = str ''reconnect'' then [GlobalCommandEv Reconnect]
            else [])
      else []))))"

section \<open>Orchestrator (src/daemon.ts)\<close>

text \<open>The handler of \<open>devicesDiscovered\<close>: the registry update, and the device states
  handed to the bridge for publication.\<close>

definition onDevicesDiscovered ::
  "bool \<Rightarrow> DeviceState list \<Rightarrow> DeviceRegistry \<Rightarrow> (DeviceRegistry \<times> RegistryEvent list) \<times> DeviceState list" where
  "onDevicesDiscovered publishOnStartup devs reg =
     (updateDevices devs reg, if publishOnStartup then devs else [])"

section \<open>Sample values\<close>

text \<open>The device of the registry tests (\<open>createMockDevice\<close>), an empty registry, a
  registry holding that device at node 0, the same device with other limits, serial
  number and timestamp, and a file system in which the data directory exists and no call
  throws.\<close>

definition createMockDevice :: "nat \<Rightarrow> string \<Rightarrow> DeviceState" where
  "createMockDevice n nm =
     \<lparr>nodeId = n, name = nm, type = WINDOW, position = Finite 50, targetPosition = Finite 50,
      moving = False, online = True, error = None, limitationMin = 0, limitationMax = 100,
      serialNumber = ''SN'' @ showNat n, productType = 1024, lastUpdate = 0\<rparr>"

definition emptyRegistry :: DeviceRegistry where
  "emptyRegistry =
     \<lparr>devices = [], scenes = [], persistPath = ''/data/devices.json'',
      dirty = False, saveTimer = False\<rparr>"

definition kitchenRegistry :: DeviceRegistry where
  "kitchenRegistry = emptyRegistry\<lparr>devices := [(0, createMockDevice 0 ''Kitchen'')]\<rparr>"

definition relabelledKitchen :: DeviceState where
  "relabelledKitchen =
     (createMockDevice 0 ''Kitchen'')\<lparr>limitationMin := 10, limitationMax := 90,
        serialNumber := ''SN9'', lastUpdate := 9\<rparr>"


text \<open>The product of the gateway mock (\<open>MockProduct\<close>: no limitation arrays), the
  configuration of the reconnect scenario (base 5 s, maximum 60 s), a fresh session, a
  session after a successful \<open>connect\<close>, and the same after discovery.\<close>

definition mockProduct :: "nat \<Rightarrow> string \<Rightarrow> Product" where
  "mockProduct n nm =
     \<lparr>NodeID = n, Name = nm, TypeID = 1024, CurrentPosition = Finite 0, TargetPosition = Finite 0,
      RunStatus = 0, State = 1, StatusReply = 0, LimitationMinRaw = None,
      LimitationMaxRaw = None,
      SerialNumber = Some (''MOCK'' @ replicate (10 - length (showNat n)) CHR ''0'' @ showNat n)\<rparr>"

definition scenarioConfig :: KLF200Config where
  "scenarioConfig =
     \<lparr>host = ''10.0.0.5'', password = ''p'', port = 51200, tlsFingerprint = None,
      connectionTimeout = 10000, keepaliveInterval = 60000,
      reconnectBaseDelay = 5000, reconnectMaxDelay = 60000\<rparr>"

definition newConnection :: "KLF200Config \<Rightarrow> KLFConnection" where
  "newConnection cfg =
     \<lparr>config = cfg, connection = False, gateway = False, products = None, klfScenes = None,
      connected = False, reconnecting = False, reconnectAttempt = 0, keepaliveTimer = False,
      reconnectTimer = None, shuttingDown = False\<rparr>"

definition connectedUndiscovered :: KLFConnection where
  "connectedUndiscovered = fst (snd (connect Succeeds (newConnection scenarioConfig)))"

definition connectedDiscovered :: KLFConnection where
  "connectedDiscovered = connectedUndiscovered\<lparr>products := Some [mockProduct 0 ''Kitchen'']\<rparr>"

text \<open>A product whose current and target position are \<open>NaN\<close>, the device state that
  \<open>productToDeviceState\<close> makes of it, a clean registry that holds that state (stored by
  \<open>updateDevice\<close>, then saved), and a file system in which the data directory is
  missing.\<close>

definition unknownPositionProduct :: Product where
  "unknownPositionProduct =
     (mockProduct 0 ''Kitchen'')\<lparr>CurrentPosition := NaN, TargetPosition := NaN\<rparr>"

definition unknownPositionDevice :: DeviceState where
  "unknownPositionDevice = productToDeviceState 0 unknownPositionProduct"

definition unknownPositionRegistry :: DeviceRegistry where
  "unknownPositionRegistry =
     (fst (updateDevice unknownPositionDevice emptyRegistry))\<lparr>dirty := False, saveTimer := False\<rparr>"


text \<open>A platform for the samples of the bridge: \<open>toLowerCase\<close> on the letters A to Z,
  and the match of a topic against a pattern of the form \<open>^a(\d+)b$\<close> in which \<open>a\<close> and
  \<open>b\<close> have no metacharacter, as with the prefix \<open>klf200\<close>: the topic is \<open>a\<close>, a
  non-empty run of digits, and \<open>b\<close>, and the group is the run of digits.\<close>

definition asciiLowerCase :: "jsstring \<Rightarrow> jsstring" where
  "asciiLowerCase s = map (\<lambda>u. if 65 \<le> u \<and> u \<le> 90 then u + 32 else u) s"

fun stripPrefix :: "jsstring \<Rightarrow> jsstring \<Rightarrow> jsstring option" where
  "stripPrefix [] ys = Some ys"
| "stripPrefix (x # xs) [] = None"
| "stripPrefix (x # xs) (y # ys) = (if x = y then stripPrefix xs ys else None)"

fun splitAtGroup :: "jsstring \<Rightarrow> (jsstring \<times> jsstring) option" where
  "splitAtGroup [] = None"
| "splitAtGroup (x # xs) =
     (case stripPrefix [40, 92, 100, 43, 41] (x # xs) of
        Some rest \<Rightarrow> Some ([], rest)
      | None \<Rightarrow> (case splitAtGroup xs of Some (a, b) \<Rightarrow> Some (x # a, b) | None \<Rightarrow> None))"

definition literalRegExpMatch :: "jsstring \<Rightarrow> jsstring \<Rightarrow> match_result" where
  "literalRegExpMatch pattern topic =
     (case pattern of
        [] \<Rightarrow> RegExpThrows
      | u # body \<Rightarrow>
          (case splitAtGroup body of
             None \<Rightarrow> RegExpThrows
           | Some (a, b) \<Rightarrow>
               if u \<noteq> 94 \<or> b = [] \<or> last b \<noteq> 36 then RegExpThrows
               else (case stripPrefix a topic of
                       None \<Rightarrow> NoMatch
                     | Some rest \<Rightarrow>
                         (let ds = takeWhile isDigit rest in
                          if ds \<noteq> [] \<and> dropWhile isDigit rest = butlast b
                          then Match (Some ds) else NoMatch))))"

definition samplePlatform :: platform where
  "samplePlatform = \<lparr>toLowerCase = asciiLowerCase, regExpMatch = literalRegExpMatch\<rparr>"

section \<open>Vocabulary of the statements\<close>

text \<open>
  \<open>ulp53\<close> bounds the relative error of one rounding to binary64.
  \<open>semanticFieldsDiffer prev s\<close> says that two device states differ in one of the six
  semantic fields position, targetPosition, moving, online, error, name. For a registry
  and a device state of a bulk update, \<open>isNewOrChanged\<close> says that the registry has no
  entry of that node or one that differs from the state in a semantic field,
  \<open>loopAccepts\<close> is the test that the loop of \<open>updateDevices\<close> makes on the state
  (\<open>!previousState || this.hasStateChanged(previousState, state)\<close>), and \<open>changeEvent\<close>
  is the \<open>deviceStateChanged\<close> event of that state against the registry.
\<close>

definition ulp53 :: rat where
  "ulp53 = 1 / 2 ^ 53"

definition semanticFieldsDiffer :: "DeviceState \<Rightarrow> DeviceState \<Rightarrow> bool" where
  "semanticFieldsDiffer prev s \<longleftrightarrow>
     position prev \<noteq> position s \<or> targetPosition prev \<noteq> targetPosition s \<or>
     moving prev \<noteq> moving s \<or> online prev \<noteq> online s \<or>
     error prev \<noteq> error s \<or> name prev \<noteq> name s"

definition isNewOrChanged :: "DeviceRegistry \<Rightarrow> DeviceState \<Rightarrow> bool" where
  "isNewOrChanged reg s =
     (case getDevice (nodeId s) reg of None \<Rightarrow> True | Some prev \<Rightarrow> semanticFieldsDiffer prev s)"

definition loopAccepts :: "DeviceRegistry \<Rightarrow> DeviceState \<Rightarrow> bool" where
  "loopAccepts reg s =
     (case getDevice (nodeId s) reg of None \<Rightarrow> True | Some prev \<Rightarrow> hasStateChanged prev s)"

definition changeEvent :: "DeviceRegistry \<Rightarrow> DeviceState \<Rightarrow> RegistryEvent" where
  "changeEvent reg s =
     DeviceStateChanged \<lparr>evNodeId = nodeId s, previousState = getDevice (nodeId s) reg,
                         currentState = s\<rparr>"

text \<open>\<open>backoffDelay base mx n\<close> is the delay the specification gives attempt \<open>n \<ge> 1\<close>:
  \<open>min (base * 2\<^sup>n\<^sup>-\<^sup>1) mx\<close>, in exact arithmetic.\<close>

definition backoffDelay :: "number \<Rightarrow> number \<Rightarrow> nat \<Rightarrow> number" where
  "backoffDelay base mx n = min (base * 2 ^ (n - 1)) mx"

section \<open>Rounding to binary64\<close>

text \<open>\<open>ilog2\<close> is the binary exponent, and one rounding moves a value by at most
  \<open>2\<^sup>-\<^sup>5\<^sup>3\<close> of its magnitude.\<close>

lemma ilog2_ge1:
  assumes "1 \<le> (x::rat)"
  shows "2 powi (ilog2 x) \<le> x \<and> x < 2 powi (ilog2 x + 1)"
proof -
  let ?n = "\<lfloor>x\<rfloor>"
  have n1: "1 \<le> ?n" using assms by simp
  then have n0: "0 < ?n" by simp
  have b1: "1 \<le> bitlen ?n" using n0 by (simp add: bitlen_alt_def)
  from bitlen_bounds [OF n0]
  have lo: "2 ^ nat (bitlen ?n - 1) \<le> ?n" and hi: "?n < 2 ^ nat (bitlen ?n)" by auto
  have e: "ilog2 x = bitlen ?n - 1" using assms by (simp add: ilog2_def)
  have "(2::rat) powi (bitlen ?n - 1) = 2 ^ nat (bitlen ?n - 1)"
    using b1 by (simp add: power_int_def)
  also have "\<dots> = of_int (2 ^ nat (bitlen ?n - 1))" by simp
  also have "\<dots> \<le> of_int ?n" using lo by (simp only: of_int_le_iff)
  also have "\<dots> \<le> x" by simp
  finally have A: "2 powi (ilog2 x) \<le> x" by (simp add: e)
  have "?n + 1 \<le> 2 ^ nat (bitlen ?n)" using hi by simp
  then have "(of_int (?n + 1) :: rat) \<le> of_int (2 ^ nat (bitlen ?n))"
    by (simp only: of_int_le_iff)
  moreover have "x < of_int (?n + 1)" by linarith
  ultimately have "x < of_int (2 ^ nat (bitlen ?n))" by linarith
  also have "\<dots> = 2 powi (bitlen ?n)" using b1 by (simp add: power_int_def)
  finally have B: "x < 2 powi (ilog2 x + 1)" by (simp add: e)
  from A B show ?thesis ..
qed

lemma ilog2_lt1:
  assumes "0 < (x::rat)" and "x < 1"
  shows "2 powi (ilog2 x) \<le> x \<and> x < 2 powi (ilog2 x + 1)"
proof -
  let ?y = "1 / x"
  let ?n = "\<lceil>?y\<rceil> - 1"
  have y1: "1 < ?y" using assms by simp
  have n1: "1 \<le> ?n" using y1 by linarith
  then have n0: "0 < ?n" by simp
  have b1: "1 \<le> bitlen ?n" using n0 by (simp add: bitlen_alt_def)
  from bitlen_bounds [OF n0]
  have lo: "2 ^ nat (bitlen ?n - 1) \<le> ?n" and hi: "?n < 2 ^ nat (bitlen ?n)" by auto
  have e: "ilog2 x = - bitlen ?n" using assms by (simp add: ilog2_def)
  have ny: "of_int ?n < ?y" by linarith
  have yn: "?y \<le> of_int (?n + 1)" by simp
  have "?n + 1 \<le> 2 ^ nat (bitlen ?n)" using hi by simp
  then have "(of_int (?n + 1) :: rat) \<le> of_int (2 ^ nat (bitlen ?n))"
    by (simp only: of_int_le_iff)
  with yn have "?y \<le> of_int (2 ^ nat (bitlen ?n))" by linarith
  then have yhi: "?y \<le> 2 ^ nat (bitlen ?n)" by simp
  have "(of_int (2 ^ nat (bitlen ?n - 1)) :: rat) \<le> of_int ?n"
    using lo by (simp only: of_int_le_iff)
  with ny have "of_int (2 ^ nat (bitlen ?n - 1)) < ?y" by linarith
  then have ylo: "2 ^ nat (bitlen ?n - 1) < ?y" by simp
  have p1: "(0::rat) < 2 ^ nat (bitlen ?n)" and p2: "(0::rat) < 2 ^ nat (bitlen ?n - 1)" by simp_all
  have "1 / 2 ^ nat (bitlen ?n) \<le> x"
    using yhi assms(1) p1 by (simp add: field_simps)
  moreover have "(2::rat) powi (- bitlen ?n) = 1 / 2 ^ nat (bitlen ?n)"
    using b1 by (simp add: power_int_def field_simps)
  ultimately have A: "2 powi (ilog2 x) \<le> x" by (simp add: e)
  have "x < 1 / 2 ^ nat (bitlen ?n - 1)"
    using ylo assms(1) p2 by (simp add: field_simps)
  moreover have "(2::rat) powi (- bitlen ?n + 1) = 1 / 2 ^ nat (bitlen ?n - 1)"
  proof (cases "bitlen ?n = 1")
    case True
    then show ?thesis by simp
  next
    case False
    with b1 have "- bitlen ?n + 1 < 0" by simp
    moreover have "nat (- (- bitlen ?n + 1)) = nat (bitlen ?n - 1)" by simp
    ultimately show ?thesis by (simp add: power_int_def field_simps)
  qed
  ultimately have B: "x < 2 powi (ilog2 x + 1)" by (simp add: e)
  from A B show ?thesis ..
qed

lemma ilog2_bounds:
  assumes "0 < (x::rat)"
  shows "2 powi (ilog2 x) \<le> x" and "x < 2 powi (ilog2 x + 1)"
  using assms ilog2_ge1 [of x] ilog2_lt1 [of x] by (cases "1 \<le> x"; simp)+

lemma powi2_mono: "a \<le> b \<Longrightarrow> (2::rat) powi a \<le> 2 powi b"
  by (rule power_int_increasing) simp_all

lemma ilog2_unique:
  assumes "0 < (x::rat)" and "2 powi e \<le> x" and "x < 2 powi (e + 1)"
  shows "ilog2 x = e"
proof (rule ccontr)
  assume ne: "ilog2 x \<noteq> e"
  show False
  proof (cases "ilog2 x < e")
    case True
    then have "ilog2 x + 1 \<le> e" by simp
    then have "(2::rat) powi (ilog2 x + 1) \<le> 2 powi e" by (rule powi2_mono)
    with ilog2_bounds(2) [OF assms(1)] assms(2) show False by linarith
  next
    case False
    with ne have "e + 1 \<le> ilog2 x" by simp
    then have "(2::rat) powi (e + 1) \<le> 2 powi (ilog2 x)" by (rule powi2_mono)
    with ilog2_bounds(1) [OF assms(1)] assms(3) show False by linarith
  qed
qed

lemma roundHalfEven_cases:
  "roundHalfEven m = \<lfloor>m\<rfloor> \<and> m - of_int \<lfloor>m\<rfloor> \<le> 1 / 2
   \<or> roundHalfEven m = \<lfloor>m\<rfloor> + 1 \<and> 1 / 2 \<le> m - of_int \<lfloor>m\<rfloor>"
  by (simp add: roundHalfEven_def Let_def)

lemma roundHalfEven_error: "\<bar>of_int (roundHalfEven m) - m\<bar> \<le> 1 / 2"
proof -
  have lo: "of_int \<lfloor>m\<rfloor> \<le> m" and hi: "m < of_int \<lfloor>m\<rfloor> + 1" by linarith+
  from roundHalfEven_cases [of m] show ?thesis
  proof
    assume a: "roundHalfEven m = \<lfloor>m\<rfloor> \<and> m - of_int \<lfloor>m\<rfloor> \<le> 1 / 2"
    then have "of_int (roundHalfEven m) - m = of_int \<lfloor>m\<rfloor> - m" by simp
    with a lo show ?thesis by linarith
  next
    assume a: "roundHalfEven m = \<lfloor>m\<rfloor> + 1 \<and> 1 / 2 \<le> m - of_int \<lfloor>m\<rfloor>"
    then have "of_int (roundHalfEven m) - m = of_int \<lfloor>m\<rfloor> + 1 - m" by simp
    with a hi show ?thesis by linarith
  qed
qed

lemma roundHalfEven_nonneg: "0 \<le> m \<Longrightarrow> 0 \<le> roundHalfEven m"
  using roundHalfEven_cases [of m] by auto

text \<open>The relative error of one rounding is at most \<open>2\<^sup>-\<^sup>5\<^sup>3\<close>.\<close>

lemma binary64_pos_error:
  assumes "0 < (x::rat)"
  shows "\<bar>binary64 x - x\<bar> \<le> x / 2 ^ 53"
proof -
  define s :: rat where "s = 2 powi (ilog2 x - 52)"
  define m where "m = x / s"
  have s0: "0 < s" by (simp add: s_def)
  have b: "binary64 x = of_int (roundHalfEven m) * s"
    using assms by (simp add: binary64_def Let_def m_def s_def)
  have x: "x = m * s" using s0 by (simp add: m_def)
  have "(2::rat) powi (ilog2 x) = 2 powi ((ilog2 x - 52) + 52)" by simp
  also have "\<dots> = s * 2 powi 52" unfolding s_def by (rule power_int_add) simp
  finally have "s * 2 ^ 52 \<le> m * s" using ilog2_bounds(1) [OF assms] x by simp
  then have "2 ^ 52 * s \<le> m * s" by (simp add: mult.commute)
  then have m52: "2 ^ 52 \<le> m" using s0 by (rule_tac mult_right_le_imp_le)
  have h: "1 / 2 \<le> m / 2 ^ 53" using m52 by simp
  have "(of_int (roundHalfEven m) - m) * s = of_int (roundHalfEven m) * s - m * s"
    by (rule left_diff_distrib)
  also have "\<dots> = binary64 x - x"
    by (simp only: b [symmetric] x [symmetric])
  finally have "binary64 x - x = (of_int (roundHalfEven m) - m) * s" by simp
  then have "\<bar>binary64 x - x\<bar> = \<bar>of_int (roundHalfEven m) - m\<bar> * s"
    using s0 by (simp add: abs_mult)
  also have "\<dots> \<le> (1 / 2) * s"
    by (rule mult_right_mono [OF roundHalfEven_error]) (use s0 in simp)
  also have "\<dots> \<le> (m / 2 ^ 53) * s"
    by (rule mult_right_mono [OF h]) (use s0 in simp)
  also have "\<dots> = x / 2 ^ 53" by (simp add: x)
  finally show ?thesis .
qed

lemma binary64_minus: "binary64 (- x) = - binary64 x"
  by (simp add: binary64_def Let_def)

lemma binary64_error: "\<bar>binary64 x - x\<bar> \<le> \<bar>x\<bar> / 2 ^ 53"
proof (cases "0 < x")
  case True
  then show ?thesis using binary64_pos_error [of x] by simp
next
  case False
  show ?thesis
  proof (cases "x = 0")
    case True
    then show ?thesis by (simp add: binary64_def)
  next
    case False
    with \<open>\<not> 0 < x\<close> have n: "0 < - x" by simp
    have "\<bar>binary64 x - x\<bar> = \<bar>binary64 (- x) - (- x)\<bar>"
      by (simp add: binary64_minus)
    also have "\<dots> \<le> (- x) / 2 ^ 53" by (rule binary64_pos_error [OF n])
    finally show ?thesis using n by simp
  qed
qed

lemma binary64_nonneg: "0 \<le> x \<Longrightarrow> 0 \<le> binary64 x"
  by (cases "x = 0") (simp_all add: binary64_def Let_def roundHalfEven_nonneg)

text \<open>Scaling by a power of two commutes with rounding.\<close>

lemma binary64_scale:
  assumes "0 < (x::rat)"
  shows "binary64 (x * 2 powi k) = binary64 x * 2 powi k"
proof -
  have p: "(0::rat) < 2 powi k" by simp
  have xk: "0 < x * 2 powi k" using assms p by simp
  have "2 powi (ilog2 x) * 2 powi k \<le> x * 2 powi k"
    using ilog2_bounds(1) [OF assms] p by (simp add: mult_right_mono)
  then have lo: "2 powi (ilog2 x + k) \<le> x * 2 powi k"
    by (simp add: power_int_add)
  have "x * 2 powi k < 2 powi (ilog2 x + 1) * 2 powi k"
    using ilog2_bounds(2) [OF assms] p by (simp add: mult_strict_right_mono)
  also have "\<dots> = 2 powi (ilog2 x + k + 1)"
    by (simp add: power_int_add)
  finally have hi: "x * 2 powi k < 2 powi (ilog2 x + k + 1)" .
  have e: "ilog2 (x * 2 powi k) = ilog2 x + k"
    by (rule ilog2_unique [OF xk lo hi])
  have sp: "(2::rat) powi (ilog2 x + k - 52) = 2 powi (ilog2 x - 52) * 2 powi k"
  proof -
    have "ilog2 x + k - 52 = (ilog2 x - 52) + k" by simp
    then have "(2::rat) powi (ilog2 x + k - 52) = 2 powi ((ilog2 x - 52) + k)"
      by (rule arg_cong)
    also have "\<dots> = 2 powi (ilog2 x - 52) * 2 powi k" by (rule power_int_add) simp
    finally show ?thesis .
  qed
  have q: "x * 2 powi k / 2 powi (ilog2 x + k - 52) = x / 2 powi (ilog2 x - 52)"
    by (simp add: sp)
  show ?thesis
    using assms xk by (simp add: binary64_def Let_def e q sp abs_mult)
qed

lemma ulp53_facts: "0 \<le> ulp53" "ulp53 \<le> 1" "300 * ulp53 \<le> 1 / 2 ^ 44"
  by (simp_all add: ulp53_def)

lemma binary64_error_u: "\<bar>binary64 x - x\<bar> \<le> \<bar>x\<bar> * ulp53"
  using binary64_error [of x] by (simp add: ulp53_def)

lemma Math_round_error: "\<bar>of_int (Math_round x) - x\<bar> \<le> 1 / 2"
proof -
  have "of_int \<lfloor>x + 1 / 2\<rfloor> \<le> x + 1 / 2" "x + 1 / 2 < of_int \<lfloor>x + 1 / 2\<rfloor> + 1"
    by linarith+
  then show ?thesis unfolding Math_round_def by linarith
qed

lemma klfPositionToPercent_error:
  "\<bar>of_int (klfPositionToPercent raw) - (1 - raw) * 100\<bar> \<le> 1 / 2 + \<bar>1 - raw\<bar> * (1 / 2 ^ 44)"
proof -
  define d where "d = 1 - raw"
  define t where "t = binary64 d"
  define m where "m = binary64 (t * 100)"
  define R :: rat where "R = of_int (Math_round m)"
  define D where "D = \<bar>d\<bar>"
  define T where "T = \<bar>t\<bar>"
  have D0: "0 \<le> D" by (simp add: D_def)
  have r: "klfPositionToPercent raw = Math_round m"
    by (simp add: klfPositionToPercent_def fsub_def fmul_def m_def t_def d_def)
  have e1: "\<bar>t - d\<bar> \<le> D * ulp53"
    unfolding t_def D_def by (rule binary64_error_u)
  have "D * ulp53 \<le> D * 1" by (rule mult_left_mono [OF ulp53_facts(2) D0])
  with e1 have T2: "T \<le> 2 * D" unfolding T_def D_def by linarith
  have "\<bar>m - t * 100\<bar> \<le> \<bar>t * 100\<bar> * ulp53"
    unfolding m_def by (rule binary64_error_u)
  then have e2: "\<bar>m - t * 100\<bar> \<le> (100 * T) * ulp53"
    by (simp add: abs_mult T_def mult.commute)
  have "(100 * T) * ulp53 \<le> (200 * D) * ulp53"
    by (rule mult_right_mono [OF _ ulp53_facts(1)]) (use T2 in simp)
  also have "\<dots> = 200 * (D * ulp53)" by simp
  finally have "(100 * T) * ulp53 \<le> 200 * (D * ulp53)" .
  with e2 have e2': "\<bar>m - 100 * t\<bar> \<le> 200 * (D * ulp53)"
    by (simp only: mult.commute [of t 100])
  have e3: "\<bar>R - m\<bar> \<le> 1 / 2" unfolding R_def by (rule Math_round_error)
  have "D * (300 * ulp53) \<le> D * (1 / 2 ^ 44)"
    by (rule mult_left_mono [OF ulp53_facts(3) D0])
  then have k: "300 * (D * ulp53) \<le> D * (1 / 2 ^ 44)" by simp
  define K where "K = D * (1 / 2 ^ 44)"
  define E where "E = D * ulp53"
  from e1 e2' e3 k have "\<bar>R - 100 * d\<bar> \<le> 1 / 2 + K"
    unfolding K_def [symmetric] E_def [symmetric] by linarith
  then show ?thesis by (simp add: r d_def R_def D_def K_def mult.commute)
qed

lemma percentToKlfPosition_error:
  assumes "0 \<le> p" and "p \<le> 100"
  shows "\<bar>percentToKlfPosition p - (1 - p / 100)\<bar> \<le> 3 * ulp53"
proof -
  define a where "a = p / 100"
  define r1 where "r1 = binary64 a"
  define s where "s = 1 - r1"
  define r2 where "r2 = binary64 s"
  have a01: "0 \<le> a" "a \<le> 1" using assms by (simp_all add: a_def)
  have "\<bar>r1 - a\<bar> \<le> \<bar>a\<bar> * ulp53"
    unfolding r1_def by (rule binary64_error_u)
  moreover have "\<bar>a\<bar> * ulp53 \<le> 1 * ulp53"
    by (rule mult_right_mono [OF _ ulp53_facts(1)]) (use a01 in simp)
  ultimately have e1: "\<bar>r1 - a\<bar> \<le> ulp53" by simp
  have s2: "\<bar>s\<bar> \<le> 2" using e1 a01 ulp53_facts(2) unfolding s_def by linarith
  have "\<bar>r2 - s\<bar> \<le> \<bar>s\<bar> * ulp53"
    unfolding r2_def by (rule binary64_error_u)
  moreover have "\<bar>s\<bar> * ulp53 \<le> 2 * ulp53"
    by (rule mult_right_mono [OF s2 ulp53_facts(1)])
  ultimately have e2: "\<bar>r2 - s\<bar> \<le> 2 * ulp53" by simp
  have "percentToKlfPosition p = r2"
    by (simp add: percentToKlfPosition_def fsub_def fdiv_def r2_def s_def r1_def a_def)
  moreover from e1 e2 have "\<bar>r2 - (1 - a)\<bar> \<le> 3 * ulp53"
    unfolding s_def by linarith
  ultimately show ?thesis by (simp add: a_def)
qed

lemma codec_roundtrip:
  assumes "0 \<le> (p::int)" and "p \<le> 100"
  shows "klfPositionToPercent (percentToKlfPosition (of_int p)) = p"
proof -
  define x where "x = percentToKlfPosition (of_int p)"
  define R :: rat where "R = of_int (klfPositionToPercent x)"
  define P :: rat where "P = of_int p"
  define X where "X = \<bar>1 - x\<bar>"
  have p: "0 \<le> P" "P \<le> 100" using assms by (simp_all add: P_def)
  have e1: "\<bar>x - (1 - P / 100)\<bar> \<le> 3 * ulp53"
    unfolding x_def P_def using p [unfolded P_def] by (rule percentToKlfPosition_error)
  have e2: "\<bar>R - (1 - x) * 100\<bar> \<le> 1 / 2 + X * (1 / 2 ^ 44)"
    unfolding R_def X_def by (rule klfPositionToPercent_error)
  have u: "3 * ulp53 \<le> 1 / 1000" by (simp add: ulp53_def)
  have X2: "X \<le> 2" using e1 p u unfolding X_def by linarith
  have "X * (1 / 2 ^ 44) \<le> 2 * (1 / 2 ^ 44)"
    by (rule mult_right_mono [OF X2]) simp
  also have "\<dots> \<le> 1 / 1000" by simp
  finally have k: "X * (1 / 2 ^ 44) \<le> 1 / 1000" .
  define K where "K = X * (1 / 2 ^ 44)"
  have e2': "\<bar>R - (100 - 100 * x)\<bar> \<le> 1 / 2 + K"
    using e2 by (simp add: K_def algebra_simps)
  from p e1 e2' u k have "\<bar>R - P\<bar> < 1"
    unfolding K_def [symmetric] by linarith
  then have "\<bar>(of_int (klfPositionToPercent x - p) :: rat)\<bar> < 1" by (simp add: R_def P_def)
  then have "\<bar>klfPositionToPercent x - p\<bar> < 1"
    by (metis of_int_abs of_int_less_1_iff)
  then show ?thesis by (simp add: x_def)
qed

lemma klfPositionToPercent_range:
  assumes "0 \<le> raw" and "raw \<le> 1"
  shows "0 \<le> klfPositionToPercent raw \<and> klfPositionToPercent raw \<le> 100"
proof -
  define R :: rat where "R = of_int (klfPositionToPercent raw)"
  define X where "X = \<bar>1 - raw\<bar>"
  have e: "\<bar>R - (1 - raw) * 100\<bar> \<le> 1 / 2 + X * (1 / 2 ^ 44)"
    unfolding R_def X_def by (rule klfPositionToPercent_error)
  have X1: "X \<le> 1" using assms unfolding X_def by linarith
  have "X * (1 / 2 ^ 44) \<le> 1 * (1 / 2 ^ 44)"
    by (rule mult_right_mono [OF X1]) simp
  also have "\<dots> \<le> 1 / 1000" by simp
  finally have k: "X * (1 / 2 ^ 44) \<le> 1 / 1000" .
  define K where "K = X * (1 / 2 ^ 44)"
  have e': "\<bar>R - (100 - 100 * raw)\<bar> \<le> 1 / 2 + K"
    using e by (simp add: K_def algebra_simps)
  from assms e' k have "- 1 < R" and "R < 101"
    unfolding K_def [symmetric] by linarith+
  then have "(of_int (- 1) :: rat) < of_int (klfPositionToPercent raw)"
    and "(of_int (klfPositionToPercent raw) :: rat) < of_int 101"
    by (simp_all add: R_def)
  then have "- 1 < klfPositionToPercent raw" and "klfPositionToPercent raw < 101"
    by (simp_all only: of_int_less_iff)
  then show ?thesis by simp
qed

lemma klfPositionToPercent_above:
  assumes "101 / 100 < raw"
  shows "klfPositionToPercent raw < 0"
proof -
  define R :: rat where "R = of_int (klfPositionToPercent raw)"
  define X where "X = \<bar>1 - raw\<bar>"
  have e: "\<bar>R - (1 - raw) * 100\<bar> \<le> 1 / 2 + X * (1 / 2 ^ 44)"
    unfolding R_def X_def by (rule klfPositionToPercent_error)
  have X0: "0 \<le> X" by (simp add: X_def)
  have "X * (1 / 2 ^ 44) \<le> X * (1 / 1000)"
    by (rule mult_left_mono [OF _ X0]) simp
  then have k: "X * (1 / 2 ^ 44) \<le> X / 1000" by simp
  have X: "X = raw - 1" using assms unfolding X_def by linarith
  define K where "K = X * (1 / 2 ^ 44)"
  have e': "\<bar>R - (100 - 100 * raw)\<bar> \<le> 1 / 2 + K"
    using e by (simp add: K_def algebra_simps)
  from assms e' k X have "R < 0"
    unfolding K_def [symmetric] by linarith
  then have "(of_int (klfPositionToPercent raw) :: rat) < of_int 0" by (simp add: R_def)
  then show ?thesis by (simp only: of_int_less_iff)
qed

lemma klfPositionToPercent_below:
  assumes "raw < - 1 / 100"
  shows "100 < klfPositionToPercent raw"
proof -
  define R :: rat where "R = of_int (klfPositionToPercent raw)"
  define X where "X = \<bar>1 - raw\<bar>"
  have e: "\<bar>R - (1 - raw) * 100\<bar> \<le> 1 / 2 + X * (1 / 2 ^ 44)"
    unfolding R_def X_def by (rule klfPositionToPercent_error)
  have X0: "0 \<le> X" by (simp add: X_def)
  have "X * (1 / 2 ^ 44) \<le> X * (1 / 1000)"
    by (rule mult_left_mono [OF _ X0]) simp
  then have k: "X * (1 / 2 ^ 44) \<le> X / 1000" by simp
  have X: "X = 1 - raw" using assms unfolding X_def by linarith
  define K where "K = X * (1 / 2 ^ 44)"
  have e': "\<bar>R - (100 - 100 * raw)\<bar> \<le> 1 / 2 + K"
    using e by (simp add: K_def algebra_simps)
  from assms e' k X have "100 < R"
    unfolding K_def [symmetric] by linarith
  then have "(of_int 100 :: rat) < of_int (klfPositionToPercent raw)" by (simp add: R_def)
  then show ?thesis by (simp only: of_int_less_iff)
qed

lemma binary64_1: "binary64 1 = 1" by code_simp

lemma Math_pow_2: "Math_pow 2 k = 2 powi k"
  using binary64_scale [of 1 k] by (simp add: Math_pow_def binary64_1)

lemma fmul_pow2: "0 < b \<Longrightarrow> binary64 b = b \<Longrightarrow> fmul b (Math_pow 2 k) = b * 2 powi k"
  using binary64_scale [of b k] by (simp add: fmul_def Math_pow_2)

lemma klfPositionToPercent_0: "klfPositionToPercent 0 = 100" by code_simp
lemma klfPositionToPercent_1: "klfPositionToPercent 1 = 0" by code_simp

section \<open>Position codec\<close>

text \<open>
  Claim C2. For every integer \<open>p\<close> with \<open>0 \<le> p \<le> 100\<close>,
  \<open>klfPositionToPercent (percentToKlfPosition p)\<close> is exactly \<open>p\<close>, in binary64
  arithmetic: the four roundings on the way move the value by far less than one half.
\<close>

theorem position_roundtrip:
  "0 \<le> p \<Longrightarrow> p \<le> 100 \<Longrightarrow> klfPositionToPercent (percentToKlfPosition (of_int p)) = p"
  by (rule codec_roundtrip)

theorem position_roundtrip_witness:
  "(0::int) \<le> 37 \<and> (37::int) \<le> 100
   \<and> klfPositionToPercent (percentToKlfPosition (of_int 37)) = 37"
  using position_roundtrip [of 37] by simp

text \<open>
  Claim C6, as stated, fails: \<open>klfPositionToPercent\<close> does not clamp. At the raw
  position 2 the result is \<open>-100\<close>, outside \<open>[0, 100]\<close>.
\<close>

theorem klfPositionToPercent_clamp_counterexample:
  "klfPositionToPercent 2 = - 100
   \<and> \<not> (0 \<le> klfPositionToPercent 2 \<and> klfPositionToPercent 2 \<le> 100)"
  by code_simp

text \<open>
  Claim C6, amended. For every raw position of magnitude at most \<open>10\<^sup>3\<^sup>0\<^sup>0\<close> (so that
  binary64 does not overflow) the result is the integer nearest to \<open>(1 - raw) * 100\<close>
  as binary64 computes it: it is within \<open>1/2 + \<bar>1 - raw\<bar> / 2\<^sup>4\<^sup>4\<close> of the exact
  product. Nothing is clamped: the result is in \<open>[0, 100]\<close> when \<open>raw\<close> is in
  \<open>[0, 1]\<close>, negative when \<open>raw > 1.01\<close> and above 100 when \<open>raw < -0.01\<close>.
\<close>

theorem klfPositionToPercent_unclamped:
  assumes "\<bar>raw\<bar> \<le> 10 ^ 300"
  shows "\<bar>of_int (klfPositionToPercent raw) - (1 - raw) * 100\<bar> \<le> 1 / 2 + \<bar>1 - raw\<bar> * (1 / 2 ^ 44)
   \<and> (0 \<le> raw \<and> raw \<le> 1 \<longrightarrow>
        0 \<le> klfPositionToPercent raw \<and> klfPositionToPercent raw \<le> 100)
   \<and> (101 / 100 < raw \<longrightarrow> klfPositionToPercent raw < 0)
   \<and> (raw < - 1 / 100 \<longrightarrow> 100 < klfPositionToPercent raw)"
  using klfPositionToPercent_error [of raw] klfPositionToPercent_range [of raw]
    klfPositionToPercent_above [of raw] klfPositionToPercent_below [of raw]
  by blast

theorem klfPositionToPercent_unclamped_witness:
  "\<bar>1 / 4 :: rat\<bar> \<le> 10 ^ 300 \<and> \<bar>3 / 2 :: rat\<bar> \<le> 10 ^ 300 \<and> \<bar>- 1 / 2 :: rat\<bar> \<le> 10 ^ 300
   \<and> (0::rat) \<le> 1 / 4 \<and> (1 / 4 :: rat) \<le> 1
   \<and> 0 \<le> klfPositionToPercent (1 / 4) \<and> klfPositionToPercent (1 / 4) \<le> 100
   \<and> (101 / 100 :: rat) < 3 / 2 \<and> klfPositionToPercent (3 / 2) < 0
   \<and> (- 1 / 2 :: rat) < - 1 / 100 \<and> 100 < klfPositionToPercent (- 1 / 2)"
  using klfPositionToPercent_unclamped [of "1 / 4"] klfPositionToPercent_unclamped [of "3 / 2"]
    klfPositionToPercent_unclamped [of "- 1 / 2"]
  by simp

section \<open>Change detection of \<open>updateDevice\<close>\<close>

lemma map_of_update_same: "map_of (AList.update k v al) k = Some v"
  by (simp add: update_conv')

lemma map_of_update_other: "k' \<noteq> k \<Longrightarrow> map_of (AList.update k v al) k' = map_of al k'"
  by (simp add: update_conv')

lemma map_of_Some_key: "map_of al k = Some v \<Longrightarrow> k \<in> fst ` set al"
  by (metis domI dom_map_of_conv_image_fst)

lemma hasStateChanged_no_NaN:
  "position s \<noteq> NaN \<Longrightarrow> targetPosition s \<noteq> NaN \<Longrightarrow>
     hasStateChanged prev s = semanticFieldsDiffer prev s"
  by (auto simp: hasStateChanged_def semanticFieldsDiffer_def strictNotEqual_def)

lemma semanticFieldsDiffer_changed: "semanticFieldsDiffer prev s \<Longrightarrow> hasStateChanged prev s"
  by (auto simp: hasStateChanged_def semanticFieldsDiffer_def strictNotEqual_def)

lemma unknownPositionDevice_fields:
  "nodeId unknownPositionDevice = 0" "position unknownPositionDevice = NaN"
  "targetPosition unknownPositionDevice = NaN"
  by (simp_all add: unknownPositionDevice_def unknownPositionProduct_def productToDeviceState_def
      mockProduct_def klfPositionToPercent_js_def)

text \<open>
  Claim C1 fails on the code at a state whose position is \<open>NaN\<close>. The comparison \<open>!==\<close>
  is true of \<open>NaN\<close> against \<open>NaN\<close>, so \<open>hasStateChanged\<close> finds a change between a state
  and itself. \<open>unknownPositionDevice\<close> is the state made from a product whose position
  is \<open>NaN\<close>; \<open>unknownPositionRegistry\<close> holds it and is clean. Updating that registry
  with the very same state, equal to the stored one in all six semantic fields, emits a
  \<open>deviceStateChanged\<close> event and sets the dirty flag: the call is not the no-op that
  the claim, and the registry test \<open>should not emit event if state unchanged\<close>, ask for.
\<close>

theorem updateDevice_nan_reemits:
  "CurrentPosition unknownPositionProduct = NaN
   \<and> position unknownPositionDevice = NaN
   \<and> getDevice 0 unknownPositionRegistry = Some unknownPositionDevice
   \<and> \<not> dirty unknownPositionRegistry
   \<and> snd (updateDevice unknownPositionDevice unknownPositionRegistry) =
        [DeviceStateChanged \<lparr>evNodeId = 0, previousState = Some unknownPositionDevice,
                             currentState = unknownPositionDevice\<rparr>]
   \<and> dirty (fst (updateDevice unknownPositionDevice unknownPositionRegistry))
   \<and> updateDevice unknownPositionDevice unknownPositionRegistry \<noteq> (unknownPositionRegistry, [])"
proof -
  have c: "CurrentPosition unknownPositionProduct = NaN"
    by (simp add: unknownPositionProduct_def)
  have g: "map_of (devices unknownPositionRegistry) 0 = Some unknownPositionDevice"
    by (simp add: unknownPositionRegistry_def updateDevice_def emptyRegistry_def
        unknownPositionDevice_fields markDirty_def scheduleSave_def Let_def)
  have nd: "\<not> dirty unknownPositionRegistry"
    by (simp add: unknownPositionRegistry_def)
  have h: "hasStateChanged unknownPositionDevice unknownPositionDevice"
    by (simp add: hasStateChanged_def strictNotEqual_def unknownPositionDevice_fields)
  have u: "updateDevice unknownPositionDevice unknownPositionRegistry =
      (markDirty (unknownPositionRegistry\<lparr>devices :=
          AList.update 0 unknownPositionDevice (devices unknownPositionRegistry)\<rparr>),
       [DeviceStateChanged \<lparr>evNodeId = 0, previousState = Some unknownPositionDevice,
                            currentState = unknownPositionDevice\<rparr>])"
    by (simp add: updateDevice_def Let_def unknownPositionDevice_fields g h)
  have d: "dirty (fst (updateDevice unknownPositionDevice unknownPositionRegistry))"
    by (simp add: u markDirty_def scheduleSave_def)
  have e: "snd (updateDevice unknownPositionDevice unknownPositionRegistry) =
        [DeviceStateChanged \<lparr>evNodeId = 0, previousState = Some unknownPositionDevice,
                             currentState = unknownPositionDevice\<rparr>]"
    by (simp add: u)
  from e have ne: "updateDevice unknownPositionDevice unknownPositionRegistry
      \<noteq> (unknownPositionRegistry, [])"
    by auto
  from g have g': "getDevice 0 unknownPositionRegistry = Some unknownPositionDevice"
    by (simp add: getDevice_def)
  from c unknownPositionDevice_fields(2) g' nd e d ne show ?thesis by (intro conjI)
qed

theorem updateDevice_nan_reemits_witness:
  "strictNotEqual (position unknownPositionDevice) (position unknownPositionDevice)
   \<and> snd (updateDevice unknownPositionDevice unknownPositionRegistry) \<noteq> []"
proof -
  have p: "position unknownPositionDevice = NaN"
    using updateDevice_nan_reemits by blast
  have e: "snd (updateDevice unknownPositionDevice unknownPositionRegistry) \<noteq> []"
    using updateDevice_nan_reemits by simp
  from p e show ?thesis by (simp add: strictNotEqual_def)
qed

text \<open>
  Claim C8, as stated, fails: a state that equals the stored entry in the six semantic
  fields is not stored. The registry keeps the old limits, serial number and timestamp.
\<close>

theorem updateDevice_nonsemantic_counterexample:
  "position relabelledKitchen = position (createMockDevice 0 ''Kitchen'')
   \<and> targetPosition relabelledKitchen = targetPosition (createMockDevice 0 ''Kitchen'')
   \<and> moving relabelledKitchen = moving (createMockDevice 0 ''Kitchen'')
   \<and> online relabelledKitchen = online (createMockDevice 0 ''Kitchen'')
   \<and> error relabelledKitchen = error (createMockDevice 0 ''Kitchen'')
   \<and> name relabelledKitchen = name (createMockDevice 0 ''Kitchen'')
   \<and> getDevice 0 kitchenRegistry = Some (createMockDevice 0 ''Kitchen'')
   \<and> lastUpdate relabelledKitchen \<noteq> lastUpdate (createMockDevice 0 ''Kitchen'')
   \<and> getDevice 0 (fst (updateDevice relabelledKitchen kitchenRegistry))
        = Some (createMockDevice 0 ''Kitchen'')
   \<and> getDevice 0 (fst (updateDevice relabelledKitchen kitchenRegistry)) \<noteq> Some relabelledKitchen"
  by (simp add: relabelledKitchen_def createMockDevice_def kitchenRegistry_def emptyRegistry_def
      getDevice_def updateDevice_def hasStateChanged_def strictNotEqual_def)

text \<open>
  Claim C8, amended. When the registry has no entry for the node of \<open>d\<close>,
  \<open>updateDevice d\<close> stores \<open>d\<close>. When it has an entry \<open>prev\<close>: if \<open>d\<close> equals \<open>prev\<close> in
  the six semantic fields, and neither position of \<open>d\<close> is \<open>NaN\<close>, \<open>updateDevice d\<close>
  changes nothing and emits nothing, so the entry read back is still \<open>prev\<close> and the
  new limits, serial number and timestamp are dropped; if a semantic field differs, the
  whole of \<open>d\<close> is stored, its other fields with it.
\<close>

theorem updateDevice_nonsemantic_not_stored:
  "(getDevice (nodeId d) reg = None \<longrightarrow>
      getDevice (nodeId d) (fst (updateDevice d reg)) = Some d)
   \<and> (\<forall>prev. getDevice (nodeId d) reg = Some prev \<longrightarrow>
        (position prev = position d \<and> targetPosition prev = targetPosition d \<and>
         moving prev = moving d \<and> online prev = online d \<and>
         error prev = error d \<and> name prev = name d \<and>
         position d \<noteq> NaN \<and> targetPosition d \<noteq> NaN \<longrightarrow>
           updateDevice d reg = (reg, []) \<and>
           getDevice (nodeId d) (fst (updateDevice d reg)) = Some prev)
        \<and> (\<not> (position prev = position d \<and> targetPosition prev = targetPosition d \<and>
                moving prev = moving d \<and> online prev = online d \<and>
                error prev = error d \<and> name prev = name d) \<longrightarrow>
           getDevice (nodeId d) (fst (updateDevice d reg)) = Some d))"
  by (auto simp: updateDevice_def hasStateChanged_def strictNotEqual_def getDevice_def Let_def
      markDirty_def scheduleSave_def map_of_update_same)

theorem updateDevice_nonsemantic_not_stored_witness:
  "getDevice (nodeId relabelledKitchen) emptyRegistry = None
   \<and> getDevice 0 (fst (updateDevice relabelledKitchen emptyRegistry)) = Some relabelledKitchen
   \<and> getDevice (nodeId relabelledKitchen) kitchenRegistry = Some (createMockDevice 0 ''Kitchen'')
   \<and> position relabelledKitchen \<noteq> NaN \<and> targetPosition relabelledKitchen \<noteq> NaN
   \<and> updateDevice relabelledKitchen kitchenRegistry = (kitchenRegistry, [])
   \<and> getDevice 0 (fst (updateDevice relabelledKitchen kitchenRegistry))
        = Some (createMockDevice 0 ''Kitchen'')
   \<and> position (createMockDevice 0 ''Kitchen'') \<noteq> position (relabelledKitchen\<lparr>position := Finite 75\<rparr>)
   \<and> getDevice 0 (fst (updateDevice (relabelledKitchen\<lparr>position := Finite 75\<rparr>) kitchenRegistry))
        = Some (relabelledKitchen\<lparr>position := Finite 75\<rparr>)"
proof -
  let ?k = "createMockDevice 0 ''Kitchen''"
  let ?m = "relabelledKitchen\<lparr>position := Finite 75\<rparr>"
  have n: "nodeId relabelledKitchen = 0" "nodeId ?m = 0"
    by (simp_all add: relabelledKitchen_def createMockDevice_def)
  have g0: "getDevice 0 emptyRegistry = None"
    by (simp add: getDevice_def emptyRegistry_def)
  have g: "getDevice 0 kitchenRegistry = Some ?k"
    by (simp add: getDevice_def kitchenRegistry_def)
  have same: "position ?k = position relabelledKitchen \<and>
      targetPosition ?k = targetPosition relabelledKitchen \<and>
      moving ?k = moving relabelledKitchen \<and> online ?k = online relabelledKitchen \<and>
      error ?k = error relabelledKitchen \<and> name ?k = name relabelledKitchen"
    by (simp add: relabelledKitchen_def)
  have nn: "position relabelledKitchen \<noteq> NaN" "targetPosition relabelledKitchen \<noteq> NaN"
    by (simp_all add: relabelledKitchen_def createMockDevice_def)
  have diff: "position ?k \<noteq> position ?m"
    by (simp add: createMockDevice_def)
  have i: "getDevice 0 (fst (updateDevice relabelledKitchen emptyRegistry)) = Some relabelledKitchen"
    using updateDevice_nonsemantic_not_stored [of relabelledKitchen emptyRegistry,
        THEN conjunct1] g0 n
    by simp
  have a: "updateDevice relabelledKitchen kitchenRegistry = (kitchenRegistry, []) \<and>
      getDevice 0 (fst (updateDevice relabelledKitchen kitchenRegistry)) = Some ?k"
    using updateDevice_nonsemantic_not_stored [of relabelledKitchen kitchenRegistry,
        THEN conjunct2, THEN spec, of ?k] g same nn n
    by simp
  have b: "getDevice 0 (fst (updateDevice ?m kitchenRegistry)) = Some ?m"
    using updateDevice_nonsemantic_not_stored [of ?m kitchenRegistry,
        THEN conjunct2, THEN spec, of ?k] g diff n
    by simp
  from g0 g i a b diff n nn show ?thesis by simp
qed

section \<open>Bulk update\<close>

lemma loop_keys:
  "fst ` set (devices (fst (updateDevices_loop states reg evs))) =
     fst ` set (devices reg) \<union> nodeId ` set states"
proof (induction states arbitrary: reg evs)
  case Nil
  then show ?case by simp
next
  case (Cons s states)
  show ?case
  proof (cases "map_of (devices reg) (nodeId s)")
    case None
    then show ?thesis using Cons.IH by (auto simp: Let_def dom_update)
  next
    case (Some prev)
    then have "nodeId s \<in> fst ` set (devices reg)" by (rule map_of_Some_key)
    then show ?thesis using Some Cons.IH by (auto simp: Let_def dom_update)
  qed
qed

lemma loop_other:
  "n \<notin> nodeId ` set states \<Longrightarrow>
     map_of (devices (fst (updateDevices_loop states reg evs))) n = map_of (devices reg) n"
proof (induction states arbitrary: reg evs)
  case Nil
  then show ?case by simp
next
  case (Cons s states)
  then show ?case
    by (cases "map_of (devices reg) (nodeId s)") (auto simp: Let_def map_of_update_other)
qed

lemma loop_rest:
  "scenes (fst (updateDevices_loop states reg evs)) = scenes reg
   \<and> persistPath (fst (updateDevices_loop states reg evs)) = persistPath reg
   \<and> dirty (fst (updateDevices_loop states reg evs)) = dirty reg
   \<and> saveTimer (fst (updateDevices_loop states reg evs)) = saveTimer reg"
  by (induction states arbitrary: reg evs) (auto simp: Let_def split: option.splits)

lemma loop_events:
  "distinct (map nodeId states) \<Longrightarrow>
     snd (updateDevices_loop states reg evs) =
       evs @ map (changeEvent reg) (filter (loopAccepts reg) states)"
proof (induction states arbitrary: reg evs)
  case Nil
  then show ?case by simp
next
  case (Cons s states)
  let ?reg' = "reg\<lparr>devices := AList.update (nodeId s) s (devices reg)\<rparr>"
  have later: "\<And>t. t \<in> set states \<Longrightarrow> getDevice (nodeId t) ?reg' = getDevice (nodeId t) reg"
  proof -
    fix t assume "t \<in> set states"
    then have "nodeId t \<in> nodeId ` set states" by (rule imageI)
    moreover from Cons.prems have "nodeId s \<notin> nodeId ` set states" by simp
    ultimately have "nodeId t \<noteq> nodeId s" by metis
    then show "getDevice (nodeId t) ?reg' = getDevice (nodeId t) reg"
      by (simp add: getDevice_def map_of_update_other)
  qed
  have f: "filter (loopAccepts ?reg') states = filter (loopAccepts reg) states"
    by (rule filter_cong) (simp_all add: loopAccepts_def later)
  have m: "map (changeEvent ?reg') (filter (loopAccepts reg) states) =
           map (changeEvent reg) (filter (loopAccepts reg) states)"
    by (rule map_cong) (simp_all add: changeEvent_def later)
  from Cons.prems have d: "distinct (map nodeId states)" by simp
  show ?case
  proof (cases "loopAccepts reg s")
    case True
    then have "snd (updateDevices_loop (s # states) reg evs) =
        snd (updateDevices_loop states ?reg' (evs @ [changeEvent reg s]))"
      by (simp add: loopAccepts_def changeEvent_def getDevice_def Let_def)
    also have "\<dots> = (evs @ [changeEvent reg s]) @
        map (changeEvent ?reg') (filter (loopAccepts ?reg') states)"
      by (rule Cons.IH [OF d])
    finally show ?thesis using True by (simp add: f m)
  next
    case False
    then have "snd (updateDevices_loop (s # states) reg evs) =
        snd (updateDevices_loop states reg evs)"
      by (simp add: loopAccepts_def getDevice_def Let_def)
    then show ?thesis using False Cons.IH [OF d] by simp
  qed
qed

lemma loop_stored:
  "distinct (map nodeId states) \<Longrightarrow> s \<in> set states \<Longrightarrow>
     map_of (devices (fst (updateDevices_loop states reg evs))) (nodeId s) =
       (if loopAccepts reg s then Some s else map_of (devices reg) (nodeId s))"
proof (induction states arbitrary: reg evs)
  case Nil
  then show ?case by simp
next
  case (Cons t states)
  let ?reg' = "reg\<lparr>devices := AList.update (nodeId t) t (devices reg)\<rparr>"
  from Cons.prems have d: "distinct (map nodeId states)"
    and nt: "nodeId t \<notin> nodeId ` set states" by simp_all
  show ?case
  proof (cases "s \<in> set states")
    case True
    then have "nodeId s \<in> nodeId ` set states" by (rule imageI)
    with nt have ne: "nodeId s \<noteq> nodeId t" by metis
    have same: "map_of (devices ?reg') (nodeId s) = map_of (devices reg) (nodeId s)"
      using ne by (simp add: map_of_update_other)
    then have acc: "loopAccepts ?reg' s = loopAccepts reg s"
      by (simp add: loopAccepts_def getDevice_def)
    show ?thesis
    proof (cases "loopAccepts reg t")
      case True
      then have "fst (updateDevices_loop (t # states) reg evs) =
          fst (updateDevices_loop states ?reg'
            (evs @ [DeviceStateChanged \<lparr>evNodeId = nodeId t,
               previousState = map_of (devices reg) (nodeId t), currentState = t\<rparr>]))"
        by (simp add: loopAccepts_def getDevice_def Let_def)
      then show ?thesis using Cons.IH [OF d \<open>s \<in> set states\<close>, of ?reg'] same acc by simp
    next
      case False
      then have "fst (updateDevices_loop (t # states) reg evs) =
          fst (updateDevices_loop states reg evs)"
        by (simp add: loopAccepts_def getDevice_def Let_def)
      then show ?thesis using Cons.IH [OF d \<open>s \<in> set states\<close>, of reg] by simp
    qed
  next
    case False
    with Cons.prems have st: "s = t" by simp
    show ?thesis
    proof (cases "loopAccepts reg t")
      case True
      then have "fst (updateDevices_loop (t # states) reg evs) =
          fst (updateDevices_loop states ?reg'
            (evs @ [DeviceStateChanged \<lparr>evNodeId = nodeId t,
               previousState = map_of (devices reg) (nodeId t), currentState = t\<rparr>]))"
        by (simp add: loopAccepts_def getDevice_def Let_def)
      then show ?thesis using True st nt
        by (simp add: loop_other map_of_update_same)
    next
      case False
      then have "fst (updateDevices_loop (t # states) reg evs) =
          fst (updateDevices_loop states reg evs)"
        by (simp add: loopAccepts_def getDevice_def Let_def)
      then show ?thesis using False st nt by (simp add: loop_other)
    qed
  qed
qed

lemma loop_events_shape:
  "\<exists>evs'. snd (updateDevices_loop states reg evs) = evs @ evs'
     \<and> length evs' \<le> length states
     \<and> (\<forall>e \<in> set evs'. \<exists>ch. e = DeviceStateChanged ch \<and> currentState ch \<in> set states)"
proof (induction states arbitrary: reg evs)
  case Nil
  then show ?case by simp
next
  case (Cons s states)
  let ?reg' = "reg\<lparr>devices := AList.update (nodeId s) s (devices reg)\<rparr>"
  let ?ev = "DeviceStateChanged \<lparr>evNodeId = nodeId s,
      previousState = map_of (devices reg) (nodeId s), currentState = s\<rparr>"
  show ?case
  proof (cases "case map_of (devices reg) (nodeId s) of None \<Rightarrow> True
                | Some prev \<Rightarrow> hasStateChanged prev s")
    case True
    from Cons.IH [of ?reg' "evs @ [?ev]"] obtain evs' where
      e: "snd (updateDevices_loop states ?reg' (evs @ [?ev])) = (evs @ [?ev]) @ evs'"
      and l: "length evs' \<le> length states"
      and a: "\<forall>e \<in> set evs'. \<exists>ch. e = DeviceStateChanged ch \<and> currentState ch \<in> set states"
      by blast
    have "snd (updateDevices_loop (s # states) reg evs) = evs @ (?ev # evs')"
      using True e by (simp add: Let_def)
    moreover have "length (?ev # evs') \<le> length (s # states)" using l by simp
    moreover have "\<forall>e \<in> set (?ev # evs'). \<exists>ch. e = DeviceStateChanged ch
        \<and> currentState ch \<in> set (s # states)"
      using a by auto
    ultimately show ?thesis by blast
  next
    case False
    from Cons.IH [of reg evs] obtain evs' where
      e: "snd (updateDevices_loop states reg evs) = evs @ evs'"
      and l: "length evs' \<le> length states"
      and a: "\<forall>e \<in> set evs'. \<exists>ch. e = DeviceStateChanged ch \<and> currentState ch \<in> set states"
      by blast
    have "snd (updateDevices_loop (s # states) reg evs) = evs @ evs'"
      using False e by (simp add: Let_def)
    moreover have "length evs' \<le> length (s # states)" using l by simp
    moreover have "\<forall>e \<in> set evs'. \<exists>ch. e = DeviceStateChanged ch
        \<and> currentState ch \<in> set (s # states)"
      using a by auto
    ultimately show ?thesis by blast
  qed
qed

text \<open>
  Claim C5, as stated, fails: \<open>updateDevices\<close> removes nothing. A registry holding node 0
  still holds it after a bulk update with a list that has node 1 only, also when the
  update comes from the handler of \<open>devicesDiscovered\<close>.
\<close>

theorem updateDevices_replace_counterexample:
  "0 \<notin> nodeId ` set [createMockDevice 1 ''Bath'']
   \<and> getDevice 0 (fst (updateDevices [createMockDevice 1 ''Bath''] kitchenRegistry))
        = Some (createMockDevice 0 ''Kitchen'')
   \<and> map fst (devices (fst (updateDevices [createMockDevice 1 ''Bath''] kitchenRegistry))) = [0, 1]
   \<and> getDevice 0 (fst (fst (onDevicesDiscovered True [createMockDevice 1 ''Bath''] kitchenRegistry)))
        = Some (createMockDevice 0 ''Kitchen'')"
  by (simp add: onDevicesDiscovered_def updateDevices_def getDevice_def kitchenRegistry_def
      emptyRegistry_def createMockDevice_def markDirty_def scheduleSave_def Let_def)

text \<open>
  Claim C5, amended. After \<open>updateDevices states\<close> the nodes of the registry are those
  it had before together with those of the list; the entry of a node that is not in the
  list is untouched; the dirty flag is set; and the events are at most one
  \<open>deviceStateChanged\<close> per state of the list, each carrying a state of the list,
  followed by a single \<open>devicesUpdated\<close> carrying all devices of the registry. When the
  node identifiers of the list are distinct and no position or target position of the
  list is \<open>NaN\<close>, the \<open>deviceStateChanged\<close> events are exactly one for each state of
  the list that is new or differs from its stored entry in a semantic field, in list
  order, and the registry then holds those states, and for the other states of the list
  the entry it had.
\<close>

theorem updateDevices_merges:
  "fst ` set (devices (fst (updateDevices states reg))) =
           fst ` set (devices reg) \<union> nodeId ` set states
   \<and> (\<forall>n. n \<notin> nodeId ` set states \<longrightarrow>
         getDevice n (fst (updateDevices states reg)) = getDevice n reg)
   \<and> dirty (fst (updateDevices states reg))
   \<and> (\<exists>evs. snd (updateDevices states reg) =
           evs @ [DevicesUpdated (getAllDevices (fst (updateDevices states reg)))]
         \<and> length evs \<le> length states
         \<and> (\<forall>e \<in> set evs. \<exists>ch. e = DeviceStateChanged ch \<and> currentState ch \<in> set states))
   \<and> (distinct (map nodeId states) \<and>
        (\<forall>s \<in> set states. position s \<noteq> NaN \<and> targetPosition s \<noteq> NaN) \<longrightarrow>
         snd (updateDevices states reg) =
           map (changeEvent reg) (filter (isNewOrChanged reg) states)
           @ [DevicesUpdated (getAllDevices (fst (updateDevices states reg)))]
         \<and> (\<forall>s \<in> set states. getDevice (nodeId s) (fst (updateDevices states reg)) =
               (if isNewOrChanged reg s then Some s else getDevice (nodeId s) reg)))"
proof -
  obtain reg1 evs where l: "updateDevices_loop states reg [] = (reg1, evs)"
    by (cases "updateDevices_loop states reg []")
  have r: "fst (updateDevices states reg) = markDirty reg1"
    by (simp add: updateDevices_def l Let_def)
  have dv: "\<And>r. devices (markDirty r) = devices r"
    by (simp add: markDirty_def scheduleSave_def)
  have reg1: "reg1 = fst (updateDevices_loop states reg [])" by (simp add: l)
  have evs: "evs = snd (updateDevices_loop states reg [])" by (simp add: l)
  have s: "snd (updateDevices states reg) =
      evs @ [DevicesUpdated (getAllDevices (fst (updateDevices states reg)))]"
    by (simp add: updateDevices_def l Let_def)
  have k: "fst ` set (devices (fst (updateDevices states reg))) =
           fst ` set (devices reg) \<union> nodeId ` set states"
    by (simp add: r dv reg1 loop_keys)
  have o: "\<forall>n. n \<notin> nodeId ` set states \<longrightarrow>
           getDevice n (fst (updateDevices states reg)) = getDevice n reg"
    by (simp add: r dv reg1 getDevice_def loop_other)
  have d: "dirty (fst (updateDevices states reg))"
    by (simp add: r markDirty_def scheduleSave_def)
  from loop_events_shape [of states reg "[]"] evs
  have sh: "length evs \<le> length states
      \<and> (\<forall>e \<in> set evs. \<exists>ch. e = DeviceStateChanged ch \<and> currentState ch \<in> set states)"
    by simp
  with s have g: "\<exists>evs. snd (updateDevices states reg) =
           evs @ [DevicesUpdated (getAllDevices (fst (updateDevices states reg)))]
         \<and> length evs \<le> length states
         \<and> (\<forall>e \<in> set evs. \<exists>ch. e = DeviceStateChanged ch \<and> currentState ch \<in> set states)"
    by blast
  have e: "distinct (map nodeId states) \<and>
        (\<forall>s \<in> set states. position s \<noteq> NaN \<and> targetPosition s \<noteq> NaN) \<longrightarrow>
         snd (updateDevices states reg) =
           map (changeEvent reg) (filter (isNewOrChanged reg) states)
           @ [DevicesUpdated (getAllDevices (fst (updateDevices states reg)))]
         \<and> (\<forall>s \<in> set states. getDevice (nodeId s) (fst (updateDevices states reg)) =
               (if isNewOrChanged reg s then Some s else getDevice (nodeId s) reg))"
  proof
    assume a: "distinct (map nodeId states) \<and>
        (\<forall>s \<in> set states. position s \<noteq> NaN \<and> targetPosition s \<noteq> NaN)"
    then have dist: "distinct (map nodeId states)" by simp
    have acc: "\<And>t. t \<in> set states \<Longrightarrow> loopAccepts reg t = isNewOrChanged reg t"
      using a by (simp add: loopAccepts_def isNewOrChanged_def hasStateChanged_no_NaN
          split: option.splits)
    have f: "filter (loopAccepts reg) states = filter (isNewOrChanged reg) states"
      by (rule filter_cong) (simp_all add: acc)
    have "evs = map (changeEvent reg) (filter (loopAccepts reg) states)"
      using loop_events [OF dist, of reg "[]"] evs by simp
    with s f have e1: "snd (updateDevices states reg) =
           map (changeEvent reg) (filter (isNewOrChanged reg) states)
           @ [DevicesUpdated (getAllDevices (fst (updateDevices states reg)))]"
      by simp
    have e2: "\<forall>s \<in> set states. getDevice (nodeId s) (fst (updateDevices states reg)) =
               (if isNewOrChanged reg s then Some s else getDevice (nodeId s) reg)"
    proof
      fix t assume t: "t \<in> set states"
      have "getDevice (nodeId t) (fst (updateDevices states reg)) =
          map_of (devices (fst (updateDevices_loop states reg []))) (nodeId t)"
        by (simp add: r dv reg1 getDevice_def)
      also have "\<dots> = (if loopAccepts reg t then Some t else map_of (devices reg) (nodeId t))"
        by (rule loop_stored [OF dist t])
      finally show "getDevice (nodeId t) (fst (updateDevices states reg)) =
               (if isNewOrChanged reg t then Some t else getDevice (nodeId t) reg)"
        by (simp add: acc [OF t] getDevice_def)
    qed
    from e1 e2 show "snd (updateDevices states reg) =
           map (changeEvent reg) (filter (isNewOrChanged reg) states)
           @ [DevicesUpdated (getAllDevices (fst (updateDevices states reg)))]
         \<and> (\<forall>s \<in> set states. getDevice (nodeId s) (fst (updateDevices states reg)) =
               (if isNewOrChanged reg s then Some s else getDevice (nodeId s) reg))"
      by blast
  qed
  from k o d g e show ?thesis by blast
qed

theorem updateDevices_merges_witness:
  "distinct (map nodeId [createMockDevice 1 ''Bath'', createMockDevice 0 ''Kitchen''])
   \<and> position (createMockDevice 1 ''Bath'') \<noteq> NaN
   \<and> targetPosition (createMockDevice 1 ''Bath'') \<noteq> NaN
   \<and> position (createMockDevice 0 ''Kitchen'') \<noteq> NaN
   \<and> targetPosition (createMockDevice 0 ''Kitchen'') \<noteq> NaN
   \<and> fst ` set (devices (fst (updateDevices
         [createMockDevice 1 ''Bath'', createMockDevice 0 ''Kitchen''] kitchenRegistry))) = {0, 1}
   \<and> 2 \<notin> nodeId ` set [createMockDevice 1 ''Bath'', createMockDevice 0 ''Kitchen'']
   \<and> getDevice 2 (fst (updateDevices
         [createMockDevice 1 ''Bath'', createMockDevice 0 ''Kitchen''] kitchenRegistry)) = None
   \<and> snd (updateDevices [createMockDevice 1 ''Bath'', createMockDevice 0 ''Kitchen'']
         kitchenRegistry) =
       [DeviceStateChanged \<lparr>evNodeId = 1, previousState = None,
                            currentState = createMockDevice 1 ''Bath''\<rparr>,
        DevicesUpdated (getAllDevices (fst (updateDevices
          [createMockDevice 1 ''Bath'', createMockDevice 0 ''Kitchen''] kitchenRegistry)))]
   \<and> getDevice 1 (fst (updateDevices
         [createMockDevice 1 ''Bath'', createMockDevice 0 ''Kitchen''] kitchenRegistry))
       = Some (createMockDevice 1 ''Bath'')"
proof -
  let ?L = "[createMockDevice 1 ''Bath'', createMockDevice 0 ''Kitchen'']"
  have d: "distinct (map nodeId ?L)" by (simp add: createMockDevice_def)
  have nn: "\<forall>s \<in> set ?L. position s \<noteq> NaN \<and> targetPosition s \<noteq> NaN"
    by (simp add: createMockDevice_def)
  from d nn have hyp: "distinct (map nodeId ?L) \<and>
      (\<forall>s \<in> set ?L. position s \<noteq> NaN \<and> targetPosition s \<noteq> NaN)"
    by (rule conjI)
  have ids: "nodeId ` set ?L = {0, 1}" by (auto simp: createMockDevice_def)
  have keys: "fst ` set (devices kitchenRegistry) = {0}"
    by (simp add: kitchenRegistry_def)
  have g2: "getDevice 2 kitchenRegistry = None"
    by (simp add: getDevice_def kitchenRegistry_def)
  have new1: "isNewOrChanged kitchenRegistry (createMockDevice 1 ''Bath'')"
    by (simp add: isNewOrChanged_def getDevice_def kitchenRegistry_def createMockDevice_def)
  have f: "filter (isNewOrChanged kitchenRegistry) ?L = [createMockDevice 1 ''Bath'']"
    by (simp add: isNewOrChanged_def getDevice_def kitchenRegistry_def createMockDevice_def
        semanticFieldsDiffer_def)
  have c: "changeEvent kitchenRegistry (createMockDevice 1 ''Bath'') =
      DeviceStateChanged \<lparr>evNodeId = 1, previousState = None,
                           currentState = createMockDevice 1 ''Bath''\<rparr>"
    by (simp add: changeEvent_def getDevice_def kitchenRegistry_def createMockDevice_def)
  have n1: "nodeId (createMockDevice 1 ''Bath'') = 1" by (simp add: createMockDevice_def)
  note t = updateDevices_merges [of ?L kitchenRegistry]
  note t5 = t [THEN conjunct2, THEN conjunct2, THEN conjunct2, THEN conjunct2, THEN mp, OF hyp]
  have t1: "fst ` set (devices (fst (updateDevices ?L kitchenRegistry))) = {0, 1}"
    unfolding t [THEN conjunct1] keys ids by auto
  have n2: "2 \<notin> nodeId ` set ?L" unfolding ids by simp
  have t2: "getDevice 2 (fst (updateDevices ?L kitchenRegistry)) = None"
    using t [THEN conjunct2, THEN conjunct1] n2 g2 by simp
  have t4: "snd (updateDevices ?L kitchenRegistry) =
      [DeviceStateChanged \<lparr>evNodeId = 1, previousState = None,
                           currentState = createMockDevice 1 ''Bath''\<rparr>,
       DevicesUpdated (getAllDevices (fst (updateDevices ?L kitchenRegistry)))]"
    unfolding t5 [THEN conjunct1] f
    by (simp only: list.map c append_Cons append_Nil)
  have "getDevice (nodeId (createMockDevice 1 ''Bath'')) (fst (updateDevices ?L kitchenRegistry)) =
      (if isNewOrChanged kitchenRegistry (createMockDevice 1 ''Bath'')
       then Some (createMockDevice 1 ''Bath'')
       else getDevice (nodeId (createMockDevice 1 ''Bath'')) kitchenRegistry)"
    by (rule t5 [THEN conjunct2, THEN bspec]) simp
  then have t6: "getDevice 1 (fst (updateDevices ?L kitchenRegistry))
      = Some (createMockDevice 1 ''Bath'')"
    by (simp only: n1 new1 if_True)
  have p: "position (createMockDevice 1 ''Bath'') \<noteq> NaN"
      "targetPosition (createMockDevice 1 ''Bath'') \<noteq> NaN"
      "position (createMockDevice 0 ''Kitchen'') \<noteq> NaN"
      "targetPosition (createMockDevice 0 ''Kitchen'') \<noteq> NaN"
    by (simp_all add: createMockDevice_def)
  from d p t1 n2 t2 t4 t6 show ?thesis by (intro conjI)
qed

section \<open>Persistence of the snapshot\<close>




section \<open>Gateway session\<close>

text \<open>
  Claim C7 does not hold of \<open>productToDeviceState\<close>: a product without limitation
  arrays gets the defaults 0 and 1 of the raw scale, and converting both to the public
  scale turns them round. The device state has \<open>limitationMin = 100\<close> and
  \<open>limitationMax = 0\<close>; discovery on a connected session produces it, and the handler of
  \<open>devicesDiscovered\<close> stores it in the registry.
\<close>

theorem productToDeviceState_limits_swapped:
  "limitationMin (productToDeviceState 0 (mockProduct 0 ''Kitchen'')) = 100
   \<and> limitationMax (productToDeviceState 0 (mockProduct 0 ''Kitchen'')) = 0
   \<and> \<not> (limitationMin (productToDeviceState 0 (mockProduct 0 ''Kitchen''))
          \<le> limitationMax (productToDeviceState 0 (mockProduct 0 ''Kitchen'')))
   \<and> discoverDevices 0 (Inr [mockProduct 0 ''Kitchen'']) connectedUndiscovered =
        (Inr [productToDeviceState 0 (mockProduct 0 ''Kitchen'')],
         connectedDiscovered,
         [DevicesDiscovered [productToDeviceState 0 (mockProduct 0 ''Kitchen'')]])
   \<and> getDevice 0 (fst (fst (onDevicesDiscovered True
          [productToDeviceState 0 (mockProduct 0 ''Kitchen'')] emptyRegistry)))
        = Some (productToDeviceState 0 (mockProduct 0 ''Kitchen''))"
proof -
  have l: "limitationMin (productToDeviceState 0 (mockProduct 0 ''Kitchen'')) = 100"
      "limitationMax (productToDeviceState 0 (mockProduct 0 ''Kitchen'')) = 0"
    by (simp_all add: productToDeviceState_def mockProduct_def klfPositionToPercent_0
        klfPositionToPercent_1)
  have d: "discoverDevices 0 (Inr [mockProduct 0 ''Kitchen'']) connectedUndiscovered =
        (Inr [productToDeviceState 0 (mockProduct 0 ''Kitchen'')],
         connectedDiscovered,
         [DevicesDiscovered [productToDeviceState 0 (mockProduct 0 ''Kitchen'')]])"
    by (simp add: discoverDevices_def connectedDiscovered_def connectedUndiscovered_def
        connect_def newConnection_def Let_def)
  have n: "nodeId (productToDeviceState 0 (mockProduct 0 ''Kitchen'')) = 0"
    by (simp add: productToDeviceState_def mockProduct_def)
  have g: "getDevice 0 (fst (fst (onDevicesDiscovered True
          [productToDeviceState 0 (mockProduct 0 ''Kitchen'')] emptyRegistry)))
        = Some (productToDeviceState 0 (mockProduct 0 ''Kitchen''))"
    by (simp add: onDevicesDiscovered_def updateDevices_def getDevice_def emptyRegistry_def
        markDirty_def scheduleSave_def Let_def n)
  from l d g show ?thesis by simp
qed

theorem productToDeviceState_limits_swapped_witness:
  "connection connectedUndiscovered \<and> connected connectedUndiscovered
   \<and> fst (discoverDevices 0 (Inr [mockProduct 0 ''Kitchen'']) connectedUndiscovered) =
        Inr [productToDeviceState 0 (mockProduct 0 ''Kitchen'')]
   \<and> limitationMin (productToDeviceState 0 (mockProduct 0 ''Kitchen'')) = 100
   \<and> limitationMax (productToDeviceState 0 (mockProduct 0 ''Kitchen'')) = 0"
proof -
  have c: "connection connectedUndiscovered \<and> connected connectedUndiscovered"
    by (simp add: connectedUndiscovered_def connect_def newConnection_def)
  from productToDeviceState_limits_swapped c show ?thesis by simp
qed

lemma backoffDelay_mono:
  assumes "0 < base" and "n \<le> m"
  shows "backoffDelay base mx n \<le> backoffDelay base mx m"
proof -
  have "(2::rat) ^ (n - 1) \<le> 2 ^ (m - 1)"
    by (rule power_increasing) (use assms(2) in simp_all)
  then have "base * 2 ^ (n - 1) \<le> base * 2 ^ (m - 1)"
    using assms(1) by simp
  then show ?thesis unfolding backoffDelay_def by (simp add: min_le_iff_disj)
qed

lemma binary64_5000: "binary64 5000 = 5000"
  by code_simp

text \<open>
  Claim C3. When a reconnect is scheduled (the session is neither shutting down nor
  already reconnecting), the attempt counter goes up by one, to \<open>n \<ge> 1\<close>, and the timer
  is armed with \<open>min (base * 2\<^sup>n\<^sup>-\<^sup>1) max\<close>, whatever the value of the counter: there is
  no last attempt. The delays never decrease with \<open>n\<close> and never exceed \<open>max\<close>. The
  counter goes up by one on a connection loss and on a reconnect attempt that fails;
  a successful \<open>connect\<close> of a disconnected session, alone or in a reconnect attempt,
  sets it back to 0. The base delay is a positive binary64 value.
\<close>

theorem scheduleReconnect_backoff:
  assumes "\<not> shuttingDown c" and "\<not> reconnecting c"
    and "0 < reconnectBaseDelay (config c)"
    and "binary64 (reconnectBaseDelay (config c)) = reconnectBaseDelay (config c)"
  shows "reconnectAttempt (scheduleReconnect c) = reconnectAttempt c + 1
     \<and> reconnecting (scheduleReconnect c)
     \<and> reconnectTimer (scheduleReconnect c) =
         Some (backoffDelay (reconnectBaseDelay (config c)) (reconnectMaxDelay (config c))
                 (reconnectAttempt (scheduleReconnect c)))
     \<and> (\<forall>n m. n \<le> m \<longrightarrow>
           backoffDelay (reconnectBaseDelay (config c)) (reconnectMaxDelay (config c)) n
           \<le> backoffDelay (reconnectBaseDelay (config c)) (reconnectMaxDelay (config c)) m)
     \<and> (\<forall>n. backoffDelay (reconnectBaseDelay (config c)) (reconnectMaxDelay (config c)) n
           \<le> reconnectMaxDelay (config c))
     \<and> reconnectAttempt (fst (handleConnectionLoss c)) = reconnectAttempt c + 1
     \<and> (\<not> connected c \<longrightarrow>
           reconnectAttempt (fst (snd (connect Succeeds c))) = 0
           \<and> reconnectAttempt (fst (reconnectTimerFired now (LoginThrows msg) lp ls
                 (c\<lparr>reconnecting := True\<rparr>))) = reconnectAttempt c + 1
           \<and> reconnectAttempt (fst (reconnectTimerFired now Succeeds (Inr ps) (Inr ss)
                 (c\<lparr>reconnecting := True\<rparr>))) = 0)"
proof -
  let ?b = "reconnectBaseDelay (config c)"
  have "fmul ?b (Math_pow 2 (int (reconnectAttempt c + 1) - 1)) =
        ?b * 2 powi (int (reconnectAttempt c + 1) - 1)"
    by (rule fmul_pow2 [OF assms(3) assms(4)])
  also have "\<dots> = ?b * 2 ^ reconnectAttempt c"
    by (simp add: power_int_def)
  finally have d: "fmul ?b (Math_pow 2 (int (reconnectAttempt c + 1) - 1)) = ?b * 2 ^ reconnectAttempt c" .
  have a: "reconnectAttempt (scheduleReconnect c) = reconnectAttempt c + 1"
    using assms(1,2) by (simp add: scheduleReconnect_def Let_def)
  have r: "reconnecting (scheduleReconnect c)"
    using assms(1,2) by (simp add: scheduleReconnect_def Let_def)
  have t: "reconnectTimer (scheduleReconnect c) =
         Some (backoffDelay ?b (reconnectMaxDelay (config c)) (reconnectAttempt (scheduleReconnect c)))"
    using assms(1,2) d by (simp add: scheduleReconnect_def Let_def backoffDelay_def)
  have m: "\<forall>n m. n \<le> m \<longrightarrow>
           backoffDelay ?b (reconnectMaxDelay (config c)) n
           \<le> backoffDelay ?b (reconnectMaxDelay (config c)) m"
    using backoffDelay_mono [OF assms(3)] by blast
  have cap: "\<forall>n. backoffDelay ?b (reconnectMaxDelay (config c)) n \<le> reconnectMaxDelay (config c)"
    by (simp add: backoffDelay_def)
  have l: "reconnectAttempt (fst (handleConnectionLoss c)) = reconnectAttempt c + 1"
    using assms(1,2)
    by (simp add: handleConnectionLoss_def scheduleReconnect_def stopKeepalive_def Let_def)
  have z: "\<not> connected c \<longrightarrow>
           reconnectAttempt (fst (snd (connect Succeeds c))) = 0
           \<and> reconnectAttempt (fst (reconnectTimerFired now (LoginThrows msg) lp ls
                 (c\<lparr>reconnecting := True\<rparr>))) = reconnectAttempt c + 1
           \<and> reconnectAttempt (fst (reconnectTimerFired now Succeeds (Inr ps) (Inr ss)
                 (c\<lparr>reconnecting := True\<rparr>))) = 0"
    using assms(1)
    by (simp add: reconnectTimerFired_def connect_def scheduleReconnect_def discoverDevices_def
        discoverScenes_def Let_def)
  from a r t m cap l z show ?thesis by blast
qed

theorem scheduleReconnect_backoff_witness:
  "reconnectTimer (scheduleReconnect (newConnection scenarioConfig)) = Some 5000
   \<and> reconnectTimer (scheduleReconnect
        ((newConnection scenarioConfig)\<lparr>reconnectAttempt := 3\<rparr>)) = Some 40000
   \<and> reconnectTimer (scheduleReconnect
        ((newConnection scenarioConfig)\<lparr>reconnectAttempt := 4\<rparr>)) = Some 60000
   \<and> \<not> connected ((newConnection scenarioConfig)\<lparr>reconnectAttempt := 4\<rparr>)
   \<and> reconnectAttempt (fst (snd (connect Succeeds
        ((newConnection scenarioConfig)\<lparr>reconnectAttempt := 4\<rparr>)))) = 0"
proof -
  let ?c = "newConnection scenarioConfig"
  have h: "\<not> shuttingDown ?c" "\<not> reconnecting ?c"
      "\<not> shuttingDown (?c\<lparr>reconnectAttempt := 3\<rparr>)" "\<not> reconnecting (?c\<lparr>reconnectAttempt := 3\<rparr>)"
      "\<not> shuttingDown (?c\<lparr>reconnectAttempt := 4\<rparr>)" "\<not> reconnecting (?c\<lparr>reconnectAttempt := 4\<rparr>)"
    by (simp_all add: newConnection_def)
  have b: "reconnectBaseDelay (config ?c) = 5000" "reconnectMaxDelay (config ?c) = 60000"
    by (simp_all add: newConnection_def scenarioConfig_def)
  have p: "0 < reconnectBaseDelay (config ?c)"
      "binary64 (reconnectBaseDelay (config ?c)) = reconnectBaseDelay (config ?c)"
    by (simp_all add: b binary64_5000)
  have a: "reconnectAttempt ?c = 0" by (simp add: newConnection_def)
  from scheduleReconnect_backoff [of ?c] h p
  have 1: "reconnectTimer (scheduleReconnect ?c) = Some (backoffDelay 5000 60000 (reconnectAttempt ?c + 1))"
    by (simp add: b)
  from scheduleReconnect_backoff [of "?c\<lparr>reconnectAttempt := 3\<rparr>"] h p
  have 2: "reconnectTimer (scheduleReconnect (?c\<lparr>reconnectAttempt := 3\<rparr>)) = Some (backoffDelay 5000 60000 4)"
    by (simp add: b)
  from scheduleReconnect_backoff [of "?c\<lparr>reconnectAttempt := 4\<rparr>"] h p
  have 3: "reconnectTimer (scheduleReconnect (?c\<lparr>reconnectAttempt := 4\<rparr>)) = Some (backoffDelay 5000 60000 5)"
    by (simp add: b)
  have n: "\<not> connected (?c\<lparr>reconnectAttempt := 4\<rparr>)" by (simp add: newConnection_def)
  from scheduleReconnect_backoff [of "?c\<lparr>reconnectAttempt := 4\<rparr>"] h p n
  have 4: "reconnectAttempt (fst (snd (connect Succeeds (?c\<lparr>reconnectAttempt := 4\<rparr>)))) = 0"
    by simp
  from 1 2 3 4 n a show ?thesis by (simp add: backoffDelay_def)
qed

text \<open>
  Claim C9, as stated, fails in one state: after \<open>connect\<close> and before any discovery
  the session is connected and has no product list, and \<open>setDevicePosition\<close> fails
  with the not-connected error, not with the unknown-node error.
\<close>

theorem setDevicePosition_undiscovered_counterexample:
  "connected connectedUndiscovered
   \<and> products connectedUndiscovered = None
   \<and> setDevicePosition (\<lambda>n p. None) 5 50 connectedUndiscovered = (Inl NotConnected, [])
   \<and> setDevicePosition (\<lambda>n p. None) 5 50 connectedUndiscovered \<noteq> (Inl (DeviceNotFound 5), [])"
  by (simp add: connectedUndiscovered_def connect_def newConnection_def setDevicePosition_def)

lemma find_NodeID: "find (\<lambda>p. NodeID p = n) ps = Some product \<Longrightarrow> NodeID product = n"
  by (auto simp: find_Some_iff)

text \<open>
  Claim C9, amended. \<open>setDevicePosition n pos\<close> fails with the not-connected error, and
  calls nothing, when the session is not connected or has no product list. With a
  product list and connected, it fails with the unknown-node error, and calls nothing,
  when no product has node \<open>n\<close>. Otherwise it makes one call, \<open>setTargetPositionAsync\<close>
  on that node, with \<open>percentToKlfPosition\<close> of \<open>pos\<close> clamped to \<open>[0, 100]\<close>, which is
  \<open>1 - pos/100\<close> up to three roundings; it fails only if the gateway rejects that call.
\<close>

theorem setDevicePosition_outcomes:
  "(products c = None \<or> \<not> connected c \<longrightarrow>
      setDevicePosition answer n pos c = (Inl NotConnected, []))
   \<and> (\<forall>ps. products c = Some ps \<and> connected c \<and> find (\<lambda>p. NodeID p = n) ps = None \<longrightarrow>
        setDevicePosition answer n pos c = (Inl (DeviceNotFound n), []))
   \<and> (\<forall>ps product.
        products c = Some ps \<and> connected c \<and> find (\<lambda>p. NodeID p = n) ps = Some product \<longrightarrow>
        snd (setDevicePosition answer n pos c) =
          [SetTargetPositionAsync n (percentToKlfPosition (max 0 (min 100 pos)))]
        \<and> 0 \<le> max 0 (min 100 pos) \<and> max 0 (min 100 pos) \<le> 100
        \<and> \<bar>percentToKlfPosition (max 0 (min 100 pos)) - (1 - max 0 (min 100 pos) / 100)\<bar>
            \<le> 3 * ulp53
        \<and> fst (setDevicePosition answer n pos c) =
            (case answer n (percentToKlfPosition (max 0 (min 100 pos))) of
               None \<Rightarrow> Inr () | Some msg \<Rightarrow> Inl (GatewayError msg)))"
proof -
  have e: "\<bar>percentToKlfPosition (max 0 (min 100 pos)) - (1 - max 0 (min 100 pos) / 100)\<bar>
            \<le> 3 * ulp53"
    by (rule percentToKlfPosition_error) simp_all
  show ?thesis
    using e by (auto simp: setDevicePosition_def Let_def dest: find_NodeID split: option.splits)
qed

theorem setDevicePosition_outcomes_witness:
  "\<not> connected (newConnection scenarioConfig)
   \<and> setDevicePosition (\<lambda>n p. None) 0 50 (newConnection scenarioConfig) = (Inl NotConnected, [])
   \<and> products connectedDiscovered = Some [mockProduct 0 ''Kitchen''] \<and> connected connectedDiscovered
   \<and> find (\<lambda>p. NodeID p = 5) [mockProduct 0 ''Kitchen''] = None
   \<and> setDevicePosition (\<lambda>n p. None) 5 50 connectedDiscovered = (Inl (DeviceNotFound 5), [])
   \<and> find (\<lambda>p. NodeID p = 0) [mockProduct 0 ''Kitchen''] = Some (mockProduct 0 ''Kitchen'')
   \<and> snd (setDevicePosition (\<lambda>n p. None) 0 150 connectedDiscovered) =
        [SetTargetPositionAsync 0 (percentToKlfPosition 100)]
   \<and> fst (setDevicePosition (\<lambda>n p. None) 0 150 connectedDiscovered) = Inr ()"
proof -
  let ?a = "\<lambda>(n::nat) (p::number). None :: string option"
  have n: "\<not> connected (newConnection scenarioConfig)" by (simp add: newConnection_def)
  have d: "products connectedDiscovered = Some [mockProduct 0 ''Kitchen'']"
      "connected connectedDiscovered"
    by (simp_all add: connectedDiscovered_def connectedUndiscovered_def connect_def
        newConnection_def)
  have f5: "find (\<lambda>p. NodeID p = 5) [mockProduct 0 ''Kitchen''] = None"
    by (simp add: mockProduct_def)
  have f0: "find (\<lambda>p. NodeID p = 0) [mockProduct 0 ''Kitchen''] = Some (mockProduct 0 ''Kitchen'')"
    by (simp add: mockProduct_def)
  have m: "max 0 (min 100 (150::rat)) = 100" by simp
  have 1: "setDevicePosition ?a 0 50 (newConnection scenarioConfig) = (Inl NotConnected, [])"
    using setDevicePosition_outcomes [of "newConnection scenarioConfig" ?a 0 50] n by blast
  have 2: "setDevicePosition ?a 5 50 connectedDiscovered = (Inl (DeviceNotFound 5), [])"
    using setDevicePosition_outcomes [of connectedDiscovered ?a 5 50] d f5 by blast
  have 3: "snd (setDevicePosition ?a 0 150 connectedDiscovered) =
        [SetTargetPositionAsync 0 (percentToKlfPosition 100)]
      \<and> fst (setDevicePosition ?a 0 150 connectedDiscovered) = Inr ()"
    using setDevicePosition_outcomes [of connectedDiscovered ?a 0 150] d f0 by (simp add: m)
  from n d f5 f0 1 2 3 show ?thesis by blast
qed

section \<open>Parsing of device commands\<close>

text \<open>An integer below \<open>2\<^sup>5\<^sup>3\<close> is its own binary64 value, so \<open>parseInt\<close> of a short run of
  digits is exact, and a number between 0 and 100 that \<open>parseInt\<close> returns is an
  integer.\<close>

lemma roundHalfEven_of_int: "roundHalfEven (of_int k) = k"
  by (simp add: roundHalfEven_def Let_def)

lemma binary64_of_int_exact:
  assumes "0 < i" and "i < 2 ^ 53"
  shows "binary64 (of_int i) = of_int i"
proof -
  define x :: rat where "x = of_int i"
  have x0: "0 < x" using assms(1) by (simp add: x_def)
  have "(of_int i :: rat) < of_int (2 ^ 53)" using assms(2) by (simp only: of_int_less_iff)
  then have x53: "x < 2 powi 53" by (simp add: x_def)
  have le52: "ilog2 x \<le> 52"
  proof (rule ccontr)
    assume "\<not> ilog2 x \<le> 52"
    then have "53 \<le> ilog2 x" by simp
    then have "(2::rat) powi 53 \<le> 2 powi (ilog2 x)" by (rule powi2_mono)
    with ilog2_bounds(1) [OF x0] x53 show False by linarith
  qed
  define k where "k = nat (52 - ilog2 x)"
  have e: "ilog2 x - 52 = - int k" using le52 by (simp add: k_def)
  have p: "(2::rat) powi (ilog2 x - 52) = 1 / 2 ^ k"
    unfolding e by (simp add: power_int_def field_simps)
  have m: "x / 2 powi (ilog2 x - 52) = of_int (i * 2 ^ k)"
    unfolding p by (simp add: x_def)
  have "binary64 x = of_int (roundHalfEven (x / 2 powi (ilog2 x - 52))) * 2 powi (ilog2 x - 52)"
    using x0 by (simp add: binary64_def Let_def)
  also have "\<dots> = of_int (i * 2 ^ k) * 2 powi (ilog2 x - 52)"
    by (simp only: m roundHalfEven_of_int)
  also have "\<dots> = of_int (i * 2 ^ k) * (1 / 2 ^ k)"
    by (simp only: p)
  also have "\<dots> = x" by (simp add: x_def)
  finally show ?thesis by (simp add: x_def)
qed

lemma toNumber_in_range:
  assumes "toNumber i = Finite r" and "0 \<le> r" and "r \<le> 100"
  shows "r = of_int i \<and> 0 \<le> i \<and> i \<le> 100"
proof -
  define I :: rat where "I = of_int i"
  define A where "A = \<bar>I\<bar>"
  have r: "r = binary64 I"
    using assms(1) by (simp add: toNumber_def Let_def I_def split: if_splits)
  have "\<bar>binary64 I - I\<bar> \<le> A * ulp53" unfolding A_def by (rule binary64_error_u)
  moreover have "A * ulp53 \<le> A * (1 / 2)"
    by (rule mult_left_mono) (simp_all add: ulp53_def A_def)
  ultimately have e: "\<bar>r - I\<bar> \<le> A / 2" by (simp add: r)
  have A: "A = \<bar>I\<bar>" by (rule A_def)
  from e A assms(2) have "0 \<le> I" by linarith
  moreover from e A assms(3) have "I \<le> 200" by linarith
  ultimately have "(of_int 0 :: rat) \<le> of_int i" and "(of_int i :: rat) \<le> of_int 200"
    by (simp_all add: I_def)
  then have i: "0 \<le> i" "i \<le> 200" by (simp_all only: of_int_le_iff)
  have ex: "binary64 I = I"
  proof (cases "i = 0")
    case True
    then show ?thesis by (simp add: I_def binary64_def)
  next
    case False
    with i have "0 < i" and "i < 2 ^ 53" by simp_all
    then show ?thesis unfolding I_def by (rule binary64_of_int_exact)
  qed
  with r have ri: "r = of_int i" by (simp add: I_def)
  with assms(3) have "(of_int i :: rat) \<le> of_int 100" by simp
  then have "i \<le> 100" by (simp only: of_int_le_iff)
  with ri i show ?thesis by simp
qed

lemma parseInt_in_range:
  assumes "parseInt s = Finite r" and "0 \<le> r" and "r \<le> 100"
  shows "\<exists>k::int. r = of_int k \<and> 0 \<le> k \<and> k \<le> 100"
proof -
  from assms(1) obtain i where "toNumber i = Finite r"
    by (auto simp: parseInt_def Let_def split: if_splits)
  from toNumber_in_range [OF this assms(2) assms(3)] show ?thesis by blast
qed

lemma parseDeviceCommand_cases:
  "parseDeviceCommand pf payload = None \<or> parseDeviceCommand pf payload = Some Open
   \<or> parseDeviceCommand pf payload = Some Close \<or> parseDeviceCommand pf payload = Some Stop
   \<or> (\<exists>k::int. parseDeviceCommand pf payload = Some (Position (of_int k)) \<and> 0 \<le> k \<and> k \<le> 100
        \<and> parseInt payload = Finite (of_int k))"
proof (cases "parseInt payload")
  case (Finite r)
  show ?thesis
  proof (cases "0 \<le> r \<and> r \<le> 100")
    case True
    with parseInt_in_range [OF Finite] obtain k :: int
      where "r = of_int k" "0 \<le> k" "k \<le> 100" by blast
    with Finite True show ?thesis
      by (auto simp: parseDeviceCommand_def Let_def isPosition_def)
  next
    case False
    with Finite show ?thesis
      by (auto simp: parseDeviceCommand_def Let_def isPosition_def)
  qed
qed (auto simp: parseDeviceCommand_def Let_def)

lemma toNumber_exact:
  assumes "0 \<le> i" and "i < 2 ^ 53"
  shows "toNumber i = Finite (of_int i)"
proof -
  have ex: "binary64 (of_int i) = of_int i"
  proof (cases "i = 0")
    case True
    then show ?thesis by (simp add: binary64_def)
  next
    case False
    with assms have "0 < i" by simp
    then show ?thesis using assms(2) by (rule binary64_of_int_exact)
  qed
  have "(of_int i :: rat) < of_int (2 ^ 53)" using assms(2) by (simp only: of_int_less_iff)
  then have u: "(of_int i :: rat) < 2 ^ 53" by simp
  have "(2::rat) ^ 53 \<le> 2 ^ 1024" by (rule power_increasing) simp_all
  with u have lt: "(of_int i :: rat) < 2 ^ 1024" by linarith
  have "(0::rat) \<le> of_int i" using assms(1) by simp
  moreover have "(0::rat) < 2 ^ 1024" by simp
  ultimately have gt: "\<not> (of_int i :: rat) \<le> - (2 ^ 1024)" by linarith
  from lt have "\<not> (2::rat) ^ 1024 \<le> of_int i" by simp
  with gt show ?thesis by (simp add: toNumber_def Let_def ex del: power_numeral)
qed

lemma parseInt_50: "parseInt (str ''50'') = Finite 50"
proof -
  have "parseInt (str ''50'') = toNumber 50"
    by (simp add: parseInt_def Let_def str_def trim_def isWhiteSpace_def isDigit_def digitsValue_def)
  also have "\<dots> = Finite (of_int 50)" by (rule toNumber_exact) simp_all
  finally show ?thesis by simp
qed

lemma parseInt_150: "parseInt (str ''150'') = Finite 150"
proof -
  have "parseInt (str ''150'') = toNumber 150"
    by (simp add: parseInt_def Let_def str_def trim_def isWhiteSpace_def isDigit_def digitsValue_def)
  also have "\<dots> = Finite (of_int 150)" by (rule toNumber_exact) simp_all
  finally show ?thesis by simp
qed

lemma parseInt_12: "parseInt (str ''12'') = Finite 12"
proof -
  have "parseInt (str ''12'') = toNumber 12"
    by (simp add: parseInt_def Let_def str_def trim_def isWhiteSpace_def isDigit_def digitsValue_def)
  also have "\<dots> = Finite (of_int 12)" by (rule toNumber_exact) simp_all
  finally show ?thesis by simp
qed

text \<open>
  Claim C10, for every payload, topic and prefix, and whatever \<open>toLowerCase\<close> and the
  regular expressions of the platform do. \<open>parseDeviceCommand\<close> yields nothing but
  \<open>open\<close>, \<open>close\<close>, \<open>stop\<close> and integers from 0 to 100. The payload is lower-cased and
  trimmed before it is compared with the three keywords. A payload that is no keyword
  and whose \<open>parseInt\<close> fails or is outside \<open>[0, 100]\<close> yields nothing, and no event on
  a topic that matches the device command pattern. Every device command that
  \<open>handleMessage\<close> emits, on any topic, is in that set; on a topic that matches the
  \<open>position/set\<close> pattern nothing is emitted when \<open>parseInt\<close> of the payload fails or
  is outside \<open>[0, 100]\<close>, and what is emitted is the integer parsed from the payload,
  between 0 and 100.
\<close>

theorem parseDeviceCommand_closed_set:
  "(\<forall>c. parseDeviceCommand pf payload = Some c \<longrightarrow>
        c = Open \<or> c = Close \<or> c = Stop
        \<or> (\<exists>k::int. c = Position (of_int k) \<and> 0 \<le> k \<and> k \<le> 100))
   \<and> (trim (toLowerCase pf payload) = str ''open'' \<longrightarrow> parseDeviceCommand pf payload = Some Open)
   \<and> (trim (toLowerCase pf payload) = str ''close'' \<longrightarrow> parseDeviceCommand pf payload = Some Close)
   \<and> (trim (toLowerCase pf payload) = str ''stop'' \<longrightarrow> parseDeviceCommand pf payload = Some Stop)
   \<and> (trim (toLowerCase pf payload) \<notin> {str ''open'', str ''close'', str ''stop''} \<and>
        \<not> isPosition (parseInt payload) \<longrightarrow>
        parseDeviceCommand pf payload = None
        \<and> (\<forall>g. regExpMatch pf (deviceCmdPattern prefix) topic = Match g \<longrightarrow>
              handleMessage pf prefix topic payload = []))
   \<and> (\<forall>n c. DeviceCommandEv n c \<in> set (handleMessage pf prefix topic payload) \<longrightarrow>
        c = Open \<or> c = Close \<or> c = Stop
        \<or> (\<exists>k::int. c = Position (of_int k) \<and> 0 \<le> k \<and> k \<le> 100))
   \<and> (\<forall>g. regExpMatch pf (deviceCmdPattern prefix) topic = NoMatch \<and>
         regExpMatch pf (positionSetPattern prefix) topic = Match g \<longrightarrow>
         (\<not> isPosition (parseInt payload) \<longrightarrow> handleMessage pf prefix topic payload = [])
         \<and> (\<forall>n c. DeviceCommandEv n c \<in> set (handleMessage pf prefix topic payload) \<longrightarrow>
              (\<exists>k::int. c = Position (of_int k) \<and> 0 \<le> k \<and> k \<le> 100
                 \<and> parseInt payload = Finite (of_int k))))"
proof -
  have a: "\<forall>c. parseDeviceCommand pf payload = Some c \<longrightarrow>
        c = Open \<or> c = Close \<or> c = Stop
        \<or> (\<exists>k::int. c = Position (of_int k) \<and> 0 \<le> k \<and> k \<le> 100)"
    using parseDeviceCommand_cases [of pf payload] by auto
  have b: "trim (toLowerCase pf payload) = str ''open'' \<longrightarrow> parseDeviceCommand pf payload = Some Open"
    by (simp add: parseDeviceCommand_def str_def)
  have c: "trim (toLowerCase pf payload) = str ''close'' \<longrightarrow> parseDeviceCommand pf payload = Some Close"
    by (simp add: parseDeviceCommand_def str_def)
  have d: "trim (toLowerCase pf payload) = str ''stop'' \<longrightarrow> parseDeviceCommand pf payload = Some Stop"
    by (simp add: parseDeviceCommand_def str_def)
  have e0: "trim (toLowerCase pf payload) \<notin> {str ''open'', str ''close'', str ''stop''} \<and>
        \<not> isPosition (parseInt payload) \<longrightarrow> parseDeviceCommand pf payload = None"
    by (auto simp: parseDeviceCommand_def Let_def str_def split: jsnumber.splits)
  then have e: "trim (toLowerCase pf payload) \<notin> {str ''open'', str ''close'', str ''stop''} \<and>
        \<not> isPosition (parseInt payload) \<longrightarrow>
        parseDeviceCommand pf payload = None
        \<and> (\<forall>g. regExpMatch pf (deviceCmdPattern prefix) topic = Match g \<longrightarrow>
              handleMessage pf prefix topic payload = [])"
    by (auto simp: handleMessage_def)
  have pos: "\<And>x. parseInt payload = Finite x \<Longrightarrow> isPosition (Finite x) \<Longrightarrow>
      \<exists>k::int. x = of_int k \<and> 0 \<le> k \<and> k \<le> 100"
    using parseInt_in_range [of payload] by (simp add: isPosition_def)
  have f: "\<forall>n c. DeviceCommandEv n c \<in> set (handleMessage pf prefix topic payload) \<longrightarrow>
        c = Open \<or> c = Close \<or> c = Stop
        \<or> (\<exists>k::int. c = Position (of_int k) \<and> 0 \<le> k \<and> k \<le> 100)"
    using a pos
    by (auto simp: handleMessage_def Let_def
        split: match_result.splits option.splits jsnumber.splits if_splits)
  have g: "\<forall>g. regExpMatch pf (deviceCmdPattern prefix) topic = NoMatch \<and>
         regExpMatch pf (positionSetPattern prefix) topic = Match g \<longrightarrow>
         (\<not> isPosition (parseInt payload) \<longrightarrow> handleMessage pf prefix topic payload = [])
         \<and> (\<forall>n c. DeviceCommandEv n c \<in> set (handleMessage pf prefix topic payload) \<longrightarrow>
              (\<exists>k::int. c = Position (of_int k) \<and> 0 \<le> k \<and> k \<le> 100
                 \<and> parseInt payload = Finite (of_int k)))"
    using pos
    by (auto simp: handleMessage_def Let_def isPosition_def
        split: match_result.splits option.splits jsnumber.splits if_splits)
  from a b c d e f g show ?thesis by blast
qed

theorem parseDeviceCommand_closed_set_witness:
  "trim (toLowerCase samplePlatform ([160] @ str '' OPEN '' @ [8232])) = str ''open''
   \<and> parseDeviceCommand samplePlatform ([160] @ str '' OPEN '' @ [8232]) = Some Open
   \<and> trim (toLowerCase samplePlatform (str ''Close'')) = str ''close''
   \<and> parseDeviceCommand samplePlatform (str ''Close'') = Some Close
   \<and> trim (toLowerCase samplePlatform (str ''stop'')) = str ''stop''
   \<and> parseDeviceCommand samplePlatform (str ''stop'') = Some Stop
   \<and> parseInt (str ''150'') = Finite 150
   \<and> parseDeviceCommand samplePlatform (str ''150'') = None
   \<and> regExpMatch samplePlatform (deviceCmdPattern (str ''klf200'')) (str ''klf200/devices/12/cmd'')
       = Match (Some (str ''12''))
   \<and> handleMessage samplePlatform (str ''klf200'') (str ''klf200/devices/12/cmd'') (str ''150'') = []
   \<and> handleMessage samplePlatform (str ''klf200'') (str ''klf200/devices/12/cmd'') (str ''stop'')
       = [DeviceCommandEv (Finite 12) Stop]
   \<and> handleMessage samplePlatform (str ''klf200'') (str ''klf200/devices/12/position/set'') (str ''50'')
       = [DeviceCommandEv (Finite 12) (Position 50)]
   \<and> handleMessage samplePlatform (str ''klf200'') (str ''klf200/devices/12/position/set'') (str ''150'') = []
   \<and> (\<exists>k::int. Position 50 = Position (of_int k) \<and> 0 \<le> k \<and> k \<le> 100
         \<and> parseInt (str ''50'') = Finite (of_int k))"
proof -
  have k1: "trim (toLowerCase samplePlatform ([160] @ str '' OPEN '' @ [8232])) = str ''open''"
    by (simp add: samplePlatform_def trim_def asciiLowerCase_def str_def isWhiteSpace_def)
  have k2: "trim (toLowerCase samplePlatform (str ''Close'')) = str ''close''"
    by (simp add: samplePlatform_def trim_def asciiLowerCase_def str_def isWhiteSpace_def)
  have k3: "trim (toLowerCase samplePlatform (str ''stop'')) = str ''stop''"
    by (simp add: samplePlatform_def trim_def asciiLowerCase_def str_def isWhiteSpace_def)
  have n1: "trim (toLowerCase samplePlatform (str ''150'')) \<notin> {str ''open'', str ''close'', str ''stop''}"
    by (simp add: samplePlatform_def trim_def asciiLowerCase_def str_def isWhiteSpace_def)
  have n2: "\<not> isPosition (parseInt (str ''150''))"
    by (simp add: parseInt_150 isPosition_def)
  have t1: "regExpMatch samplePlatform (deviceCmdPattern (str ''klf200'')) (str ''klf200/devices/12/cmd'')
      = Match (Some (str ''12''))"
    by (simp add: samplePlatform_def literalRegExpMatch_def deviceCmdPattern_def str_def isDigit_def)
  have t2: "regExpMatch samplePlatform (deviceCmdPattern (str ''klf200''))
      (str ''klf200/devices/12/position/set'') = NoMatch"
    by (simp add: samplePlatform_def literalRegExpMatch_def deviceCmdPattern_def str_def isDigit_def)
  have t3: "regExpMatch samplePlatform (positionSetPattern (str ''klf200''))
      (str ''klf200/devices/12/position/set'') = Match (Some (str ''12''))"
    by (simp add: samplePlatform_def literalRegExpMatch_def positionSetPattern_def str_def isDigit_def)
  have g: "groupNumber (Some (str ''12'')) = Finite 12"
    by (simp add: groupNumber_def parseInt_12)
  have h1: "handleMessage samplePlatform (str ''klf200'') (str ''klf200/devices/12/position/set'') (str ''50'')
      = [DeviceCommandEv (Finite 12) (Position 50)]"
    by (simp add: handleMessage_def t2 t3 g parseInt_50 isPosition_def)
  have c1: "parseDeviceCommand samplePlatform ([160] @ str '' OPEN '' @ [8232]) = Some Open"
    using parseDeviceCommand_closed_set [where pf = samplePlatform
        and payload = "[160] @ str '' OPEN '' @ [8232]"] k1 by blast
  have c2: "parseDeviceCommand samplePlatform (str ''Close'') = Some Close"
    using parseDeviceCommand_closed_set [where pf = samplePlatform and payload = "str ''Close''"] k2
    by blast
  have c3: "parseDeviceCommand samplePlatform (str ''stop'') = Some Stop"
    using parseDeviceCommand_closed_set [where pf = samplePlatform and payload = "str ''stop''"] k3
    by blast
  have c4: "parseDeviceCommand samplePlatform (str ''150'') = None
      \<and> handleMessage samplePlatform (str ''klf200'') (str ''klf200/devices/12/cmd'') (str ''150'') = []"
    using parseDeviceCommand_closed_set [where pf = samplePlatform and payload = "str ''150''"
        and prefix = "str ''klf200''" and topic = "str ''klf200/devices/12/cmd''"] n1 n2 t1
    by blast
  have c5: "handleMessage samplePlatform (str ''klf200'') (str ''klf200/devices/12/position/set'')
      (str ''150'') = []"
    using parseDeviceCommand_closed_set [where pf = samplePlatform and payload = "str ''150''"
        and prefix = "str ''klf200''" and topic = "str ''klf200/devices/12/position/set''"] n2 t2 t3
    by blast
  have ev: "DeviceCommandEv (Finite 12) (Position 50)
      \<in> set (handleMessage samplePlatform (str ''klf200'') (str ''klf200/devices/12/position/set'')
          (str ''50''))"
    by (simp add: h1)
  have c6: "\<exists>k::int. Position 50 = Position (of_int k) \<and> 0 \<le> k \<and> k \<le> 100
      \<and> parseInt (str ''50'') = Finite (of_int k)"
    using parseDeviceCommand_closed_set [where pf = samplePlatform and payload = "str ''50''"
        and prefix = "str ''klf200''" and topic = "str ''klf200/devices/12/position/set''"] t2 t3 ev
    by blast
  have h2: "handleMessage samplePlatform (str ''klf200'') (str ''klf200/devices/12/cmd'') (str ''stop'')
      = [DeviceCommandEv (Finite 12) Stop]"
    by (simp add: handleMessage_def t1 g c3)
  from k1 k2 k3 t1 h1 h2 c1 c2 c3 c4 c5 c6 parseInt_150 show ?thesis by blast
qed

end
